theory Spec2Isabelle
  imports Complex_Main "HOL-Library.Char_ord" "HOL-Library.List_Lexorder" "HOL-Library.Multiset"
    "HOL-Library.Log_Nat" "HOL-Library.Code_Target_Numeral"
begin

section \<open>The wallet service: a double-entry ledger over a relational store\<close>

text \<open>
  The service code (\<^verbatim>\<open>src/services/walletService.ts\<close>), its error middleware and its
  request handlers are embedded as functions over an explicit store. Identifiers are
  strings compared in the order of their character codes (what \<^verbatim>\<open>Array.prototype.sort\<close>
  does on strings); request amounts are JavaScript numbers, read as the rational number
  that \<^verbatim>\<open>new Decimal(amount)\<close> denotes (a finite number is assumed); the column
  \<^verbatim>\<open>DECIMAL(20,4)\<close> holds an integer count of units of \<open>10\<^sup>-\<^sup>4\<close>. Time stamps and the
  ten-second time limit of a database transaction are left out.
\<close>

subsection \<open>Schema (migration.sql)\<close>

datatype TransactionType = TOPUP | BONUS | SPEND

datatype TxStatus = PENDING | COMPLETED | FAILED

record AssetType =
  at_id :: string
  at_name :: string
  at_symbol :: string

record User =
  u_id :: string
  u_username :: string
  u_email :: string
  u_isSystem :: bool

record Wallet =
  w_id :: string
  w_userId :: string
  w_assetTypeId :: string

text \<open>
  A description is either the caller's text or one of the template strings of the
  service, kept with the number that the template interpolates.
\<close>

datatype descr =
    Custom string
  | TopUpOfCredits rat
  | TopUpPurchase
  | BonusOfCredits rat
  | BonusIncentiveCredit
  | SpendOfCredits rat
  | InAppPurchase

record Transaction =
  t_id :: string
  t_type :: TransactionType
  t_status :: TxStatus
  t_description :: descr

record LedgerEntry =
  le_id :: string
  le_transactionId :: string
  le_assetTypeId :: string
  le_debitWalletId :: string
  le_creditWalletId :: string
  le_amount :: int
  le_transactionType :: TransactionType
  le_description :: descr
  le_idempotencyKey :: "string option"

record database =
  assetTypes :: "AssetType list"
  users :: "User list"
  wallets :: "Wallet list"
  transactions :: "Transaction list"
  ledgerEntries :: "LedgerEntry list"

subsection \<open>The store client: tables and the queries issued so far\<close>

datatype query =
    LedgerEntry_findUnique string
  | Wallet_upsert string string
  | User_findFirstOrThrow
  | Wallet_selectForUpdate string
  | Transaction_create
  | LedgerEntry_create
  | Transaction_update string
  | LedgerEntry_balance string
  | Wallet_findUnique string string
  | AssetType_findUniqueOrThrow string

record client =
  db :: database
  queries :: "query list"

datatype message =
    AmountMustBePositive
  | InsufficientBalance string rat

datatype error =
    ZodError
  | PrismaClientKnownRequestError string
  | Error message

definition issue :: "query \<Rightarrow> client \<Rightarrow> client" where
  "issue q c = c\<lparr>queries := queries c @ [q]\<rparr>"

subsection \<open>Decimal arithmetic (decimal.js, rounding mode ROUND_HALF_UP)\<close>

text \<open>
  A \<^verbatim>\<open>Decimal\<close> is a rational number. The constructor and the comparison are exact;
  \<^verbatim>\<open>minus\<close> rounds its result to the precision of the library, 20 significant digits;
  \<^verbatim>\<open>toFixed(4)\<close> rounds to four decimals and keeps the sign of the number it was given.
  Both round half away from zero.
\<close>

definition decimal4 :: "int \<Rightarrow> rat" where
  "decimal4 units = of_int units / 10000"

definition round_half_up :: "rat \<Rightarrow> int" where
  "round_half_up x = (if x < 0 then - \<lfloor>- x + 1 / 2\<rfloor> else \<lfloor>x + 1 / 2\<rfloor>)"

definition quantize :: "rat \<Rightarrow> int" where
  "quantize x = round_half_up (x * 10000)"

text \<open>
  \<open>exponent10 x\<close> is the position of the leading digit of a number other than zero, the
  \<open>e\<close> with \<open>10\<^sup>e \<le> \<bar>x\<bar> < 10\<^sup>e\<^sup>+\<^sup>1\<close>: the difference of the digit counts of numerator
  and denominator, or one less.
\<close>

definition exponent10 :: "rat \<Rightarrow> int" where
  "exponent10 x =
     (case quotient_of \<bar>x\<bar> of
        (n, d) \<Rightarrow>
          (let e0 = int (floorlog 10 (nat n)) - int (floorlog 10 (nat d))
           in if 10 powi e0 \<le> \<bar>x\<bar> then e0 else e0 - 1))"

definition round_significant :: "nat \<Rightarrow> rat \<Rightarrow> rat" where
  "round_significant sd x =
     (if x = 0 then 0
      else (let s = 10 powi (exponent10 x - int sd + 1)
            in of_int (round_half_up (x / s)) * s))"

definition Decimal_minus :: "rat \<Rightarrow> rat \<Rightarrow> rat" where
  "Decimal_minus x y = round_significant 20 (x - y)"

fun digits :: "nat \<Rightarrow> string" where
  "digits n = (if n < 10 then [''0123456789'' ! n]
               else digits (n div 10) @ [''0123456789'' ! (n mod 10)])"

declare digits.simps [simp del]

definition pad4 :: "string \<Rightarrow> string" where
  "pad4 s = replicate (4 - length s) CHR ''0'' @ s"

definition toFixed4 :: "rat \<Rightarrow> string" where
  "toFixed4 x =
     (let u = nat \<bar>quantize x\<bar>
      in (if x < 0 then ''-'' else '''') @ digits (u div 10000) @ ''.'' @ pad4 (digits (u mod 10000)))"

subsection \<open>Store operations\<close>

definition ledgerEntry_findUnique :: "string \<Rightarrow> client \<Rightarrow> LedgerEntry option \<times> client" where
  "ledgerEntry_findUnique key c =
     (find (\<lambda>e. le_idempotencyKey e = Some key) (ledgerEntries (db c)),
      issue (LedgerEntry_findUnique key) c)"

definition wallet_lookup :: "database \<Rightarrow> string \<Rightarrow> string \<Rightarrow> Wallet option" where
  "wallet_lookup d userId assetTypeId =
     find (\<lambda>w. w_userId w = userId \<and> w_assetTypeId w = assetTypeId) (wallets d)"

text \<open>
  \<^verbatim>\<open>tx.wallet.upsert\<close> with an empty update: the row of the pair, or a new row under the
  identifier the store generates (\<open>newId\<close>), subject to the primary key and the two
  foreign keys of the table.
\<close>

definition getOrCreateWallet :: "string \<Rightarrow> string \<Rightarrow> string \<Rightarrow> client \<Rightarrow> (error + Wallet) \<times> client" where
  "getOrCreateWallet newId userId assetTypeId c =
     (let c1 = issue (Wallet_upsert userId assetTypeId) c
      in case wallet_lookup (db c) userId assetTypeId of
           Some w \<Rightarrow> (Inr w, c1)
         | None \<Rightarrow>
             if newId \<in> set (map w_id (wallets (db c)))
             then (Inl (PrismaClientKnownRequestError ''P2002''), c1)
             else if userId \<notin> set (map u_id (users (db c)))
                     \<or> assetTypeId \<notin> set (map at_id (assetTypes (db c)))
             then (Inl (PrismaClientKnownRequestError ''P2003''), c1)
             else (let w = \<lparr>w_id = newId, w_userId = userId, w_assetTypeId = assetTypeId\<rparr>
                   in (Inr w, c1\<lparr>db := (db c)\<lparr>wallets := wallets (db c) @ [w]\<rparr>\<rparr>)))"

text \<open>
  \<^verbatim>\<open>findFirstOrThrow\<close> without an order takes the first system user of the table and throws
  the store's not-found error (P2025) when there is none.
\<close>

definition getTreasuryWallet :: "string \<Rightarrow> string \<Rightarrow> client \<Rightarrow> (error + Wallet) \<times> client" where
  "getTreasuryWallet newId assetTypeId c =
     (let c1 = issue User_findFirstOrThrow c
      in case find u_isSystem (users (db c)) of
           None \<Rightarrow> (Inl (PrismaClientKnownRequestError ''P2025''), c1)
         | Some systemUser \<Rightarrow> getOrCreateWallet newId (u_id systemUser) assetTypeId c1)"

fun lock_each :: "string list \<Rightarrow> client \<Rightarrow> client" where
  "lock_each [] c = c"
| "lock_each (i # rest) c = lock_each rest (issue (Wallet_selectForUpdate i) c)"

definition lockWalletsInOrder :: "string list \<Rightarrow> client \<Rightarrow> client" where
  "lockWalletsInOrder walletIds c = (let sorted = sort walletIds in lock_each sorted c)"

text \<open>
  The balance query: over the rows that name the wallet, the sum of the amounts credited to
  it minus the sum of the amounts debited from it; \<^verbatim>\<open>COALESCE\<close> turns the \<^verbatim>\<open>NULL\<close> of an
  empty row set into zero.
\<close>

definition balance_query :: "LedgerEntry list \<Rightarrow> string \<Rightarrow> int" where
  "balance_query entries walletId =
     (let rows = filter (\<lambda>e. le_creditWalletId e = walletId \<or> le_debitWalletId e = walletId) entries;
          diff = (if rows = [] then None
                  else Some (sum_list (map (\<lambda>e. if le_creditWalletId e = walletId then le_amount e else 0) rows)
                           - sum_list (map (\<lambda>e. if le_debitWalletId e = walletId then le_amount e else 0) rows)))
      in case diff of None \<Rightarrow> 0 | Some b \<Rightarrow> b)"

definition computeBalance :: "string \<Rightarrow> client \<Rightarrow> rat \<times> client" where
  "computeBalance walletId c =
     (decimal4 (balance_query (ledgerEntries (db c)) walletId), issue (LedgerEntry_balance walletId) c)"

definition computeBalanceInTx :: "string \<Rightarrow> client \<Rightarrow> rat \<times> client" where
  "computeBalanceInTx walletId c =
     (decimal4 (balance_query (ledgerEntries (db c)) walletId), issue (LedgerEntry_balance walletId) c)"

definition transaction_create ::
  "string \<Rightarrow> TransactionType \<Rightarrow> TxStatus \<Rightarrow> descr \<Rightarrow> client \<Rightarrow> (error + Transaction) \<times> client" where
  "transaction_create newId ty st d c =
     (let c1 = issue Transaction_create c
      in if newId \<in> set (map t_id (transactions (db c)))
         then (Inl (PrismaClientKnownRequestError ''P2002''), c1)
         else (let t = \<lparr>t_id = newId, t_type = ty, t_status = st, t_description = d\<rparr>
               in (Inr t, c1\<lparr>db := (db c)\<lparr>transactions := transactions (db c) @ [t]\<rparr>\<rparr>)))"

text \<open>
  Inserting a ledger row: the store first brings the amount into \<^verbatim>\<open>DECIMAL(20,4)\<close> and
  refuses a value out of its range (error code P2020); it then enters the row into the
  primary key and the unique index on the idempotency key (P2002); the four foreign keys
  are checked last (P2003). The amount of the row is the string of \<^verbatim>\<open>toFixed(4)\<close> read
  back by the store, that is, the number of units of \<open>10\<^sup>-\<^sup>4\<close> it denotes.
\<close>

definition ledgerEntry_create :: "LedgerEntry \<Rightarrow> client \<Rightarrow> (error + LedgerEntry) \<times> client" where
  "ledgerEntry_create e c =
     (let c1 = issue LedgerEntry_create c; d = db c
      in if 10 ^ 20 \<le> \<bar>le_amount e\<bar>
         then (Inl (PrismaClientKnownRequestError ''P2020''), c1)
         else if le_id e \<in> set (map le_id (ledgerEntries d))
                 \<or> (le_idempotencyKey e \<noteq> None
                     \<and> le_idempotencyKey e \<in> set (map le_idempotencyKey (ledgerEntries d)))
         then (Inl (PrismaClientKnownRequestError ''P2002''), c1)
         else if le_transactionId e \<notin> set (map t_id (transactions d))
                 \<or> le_assetTypeId e \<notin> set (map at_id (assetTypes d))
                 \<or> le_debitWalletId e \<notin> set (map w_id (wallets d))
                 \<or> le_creditWalletId e \<notin> set (map w_id (wallets d))
         then (Inl (PrismaClientKnownRequestError ''P2003''), c1)
         else (Inr e, c1\<lparr>db := d\<lparr>ledgerEntries := ledgerEntries d @ [e]\<rparr>\<rparr>))"

definition transaction_update :: "string \<Rightarrow> TxStatus \<Rightarrow> client \<Rightarrow> (error + unit) \<times> client" where
  "transaction_update tid st c =
     (let c1 = issue (Transaction_update tid) c
      in if tid \<notin> set (map t_id (transactions (db c)))
         then (Inl (PrismaClientKnownRequestError ''P2025''), c1)
         else (Inr (),
               c1\<lparr>db := (db c)\<lparr>transactions :=
                     map (\<lambda>t. if t_id t = tid then t\<lparr>t_status := st\<rparr> else t) (transactions (db c))\<rparr>\<rparr>))"

text \<open>
  \<^verbatim>\<open>prisma.$transaction\<close>: the callback's writes are kept when it returns and undone when
  it throws; the queries it issued stay issued.
\<close>

definition prisma_transaction :: "(client \<Rightarrow> (error + 'a) \<times> client) \<Rightarrow> client \<Rightarrow> (error + 'a) \<times> client" where
  "prisma_transaction body c =
     (case body c of
        (Inr r, c') \<Rightarrow> (Inr r, c')
      | (Inl e, c') \<Rightarrow> (Inl e, c'\<lparr>db := db c\<rparr>))"

subsection \<open>Requests and results (types/index.ts)\<close>

record request =
  userId :: string
  assetTypeId :: string
  amount :: rat
  idempotencyKey :: string
  description :: "string option"

text \<open>
  The object a mutation returns. The replay branch sets \<open>message\<close>, \<open>idempotent\<close> and
  \<open>transactionId\<close> only; a property the object lacks is \<open>None\<close>.
\<close>

record result =
  transactionId :: string
  res_amount :: "rat option"
  remainingBalance :: "string option"
  idempotent :: bool
  message :: "string option"

text \<open>The identifiers that the store generates for the rows one call may insert.\<close>

record uuids =
  uuid_userWallet :: string
  uuid_treasuryWallet :: string
  uuid_transaction :: string
  uuid_ledgerEntry :: string

definition duplicate :: "LedgerEntry \<Rightarrow> result" where
  "duplicate existing =
     \<lparr>transactionId = le_transactionId existing, res_amount = None, remainingBalance = None,
      idempotent = True, message = Some ''Duplicate request - returning original result''\<rparr>"

subsection \<open>TOPUP\<close>

text \<open>
  Each mutation is the amount check, the look-up of the idempotency key, and the callback
  of \<^verbatim>\<open>prisma.$transaction\<close> (the function named \<open>_tx\<close> here). \<^verbatim>\<open>Promise.all\<close> starts
  the upsert of the user's wallet and the search for the treasury wallet together; the
  store runs the statements of one transaction one at a time, in the order in which they
  are issued: the user's upsert, the look-up of the system user, the treasury upsert.
\<close>

definition topupWallet_tx :: "uuids \<Rightarrow> request \<Rightarrow> client \<Rightarrow> (error + result) \<times> client" where
  "topupWallet_tx g req c =
     (case getOrCreateWallet (uuid_userWallet g) (userId req) (assetTypeId req) c of
        (Inl e, c1) \<Rightarrow> (Inl e, c1)
      | (Inr userWallet, c1) \<Rightarrow>
     (case getTreasuryWallet (uuid_treasuryWallet g) (assetTypeId req) c1 of
        (Inl e, c2) \<Rightarrow> (Inl e, c2)
      | (Inr treasuryWallet, c2) \<Rightarrow>
     (let c3 = lockWalletsInOrder [w_id userWallet, w_id treasuryWallet] c2
      in case transaction_create (uuid_transaction g) TOPUP COMPLETED
                (case description req of Some d \<Rightarrow> Custom d | None \<Rightarrow> TopUpOfCredits (amount req)) c3 of
        (Inl e, c4) \<Rightarrow> (Inl e, c4)
      | (Inr transaction, c4) \<Rightarrow>
     (case ledgerEntry_create
             \<lparr>le_id = uuid_ledgerEntry g,
              le_transactionId = t_id transaction,
              le_assetTypeId = assetTypeId req,
              le_debitWalletId = w_id treasuryWallet,
              le_creditWalletId = w_id userWallet,
              le_amount = quantize (amount req),
              le_transactionType = TOPUP,
              le_description = (case description req of Some d \<Rightarrow> Custom d | None \<Rightarrow> TopUpPurchase),
              le_idempotencyKey = Some (idempotencyKey req)\<rparr> c4 of
        (Inl e, c5) \<Rightarrow> (Inl e, c5)
      | (Inr entry, c5) \<Rightarrow>
     (case transaction_update (t_id transaction) COMPLETED c5 of
        (Inl e, c6) \<Rightarrow> (Inl e, c6)
      | (Inr u, c6) \<Rightarrow>
          (Inr \<lparr>transactionId = t_id transaction, res_amount = Some (amount req),
                remainingBalance = None, idempotent = False, message = None\<rparr>, c6))))))"

definition topupWallet :: "uuids \<Rightarrow> request \<Rightarrow> client \<Rightarrow> (error + result) \<times> client" where
  "topupWallet g req c =
     (if amount req \<le> 0 then (Inl (Error AmountMustBePositive), c)
      else case ledgerEntry_findUnique (idempotencyKey req) c of
             (Some existing, c1) \<Rightarrow> (Inr (duplicate existing), c1)
           | (None, c1) \<Rightarrow> prisma_transaction (topupWallet_tx g req) c1)"

subsection \<open>BONUS\<close>

definition issueBonus_tx :: "uuids \<Rightarrow> request \<Rightarrow> client \<Rightarrow> (error + result) \<times> client" where
  "issueBonus_tx g req c =
     (case getOrCreateWallet (uuid_userWallet g) (userId req) (assetTypeId req) c of
        (Inl e, c1) \<Rightarrow> (Inl e, c1)
      | (Inr userWallet, c1) \<Rightarrow>
     (case getTreasuryWallet (uuid_treasuryWallet g) (assetTypeId req) c1 of
        (Inl e, c2) \<Rightarrow> (Inl e, c2)
      | (Inr treasuryWallet, c2) \<Rightarrow>
     (let c3 = lockWalletsInOrder [w_id userWallet, w_id treasuryWallet] c2
      in case transaction_create (uuid_transaction g) BONUS PENDING
                (case description req of Some d \<Rightarrow> Custom d | None \<Rightarrow> BonusOfCredits (amount req)) c3 of
        (Inl e, c4) \<Rightarrow> (Inl e, c4)
      | (Inr transaction, c4) \<Rightarrow>
     (case ledgerEntry_create
             \<lparr>le_id = uuid_ledgerEntry g,
              le_transactionId = t_id transaction,
              le_assetTypeId = assetTypeId req,
              le_debitWalletId = w_id treasuryWallet,
              le_creditWalletId = w_id userWallet,
              le_amount = quantize (amount req),
              le_transactionType = BONUS,
              le_description = (case description req of Some d \<Rightarrow> Custom d | None \<Rightarrow> BonusIncentiveCredit),
              le_idempotencyKey = Some (idempotencyKey req)\<rparr> c4 of
        (Inl e, c5) \<Rightarrow> (Inl e, c5)
      | (Inr entry, c5) \<Rightarrow>
     (case transaction_update (t_id transaction) COMPLETED c5 of
        (Inl e, c6) \<Rightarrow> (Inl e, c6)
      | (Inr u, c6) \<Rightarrow>
          (Inr \<lparr>transactionId = t_id transaction, res_amount = Some (amount req),
                remainingBalance = None, idempotent = False, message = None\<rparr>, c6))))))"

definition issueBonus :: "uuids \<Rightarrow> request \<Rightarrow> client \<Rightarrow> (error + result) \<times> client" where
  "issueBonus g req c =
     (if amount req \<le> 0 then (Inl (Error AmountMustBePositive), c)
      else case ledgerEntry_findUnique (idempotencyKey req) c of
             (Some existing, c1) \<Rightarrow> (Inr (duplicate existing), c1)
           | (None, c1) \<Rightarrow> prisma_transaction (issueBonus_tx g req) c1)"

subsection \<open>SPEND\<close>

definition spendCredits_tx :: "uuids \<Rightarrow> request \<Rightarrow> client \<Rightarrow> (error + result) \<times> client" where
  "spendCredits_tx g req c =
     (case getOrCreateWallet (uuid_userWallet g) (userId req) (assetTypeId req) c of
        (Inl e, c1) \<Rightarrow> (Inl e, c1)
      | (Inr userWallet, c1) \<Rightarrow>
     (case getTreasuryWallet (uuid_treasuryWallet g) (assetTypeId req) c1 of
        (Inl e, c2) \<Rightarrow> (Inl e, c2)
      | (Inr treasuryWallet, c2) \<Rightarrow>
     (let c3 = lockWalletsInOrder [w_id userWallet, w_id treasuryWallet] c2
      in case computeBalanceInTx (w_id userWallet) c3 of
        (balance, c4) \<Rightarrow>
     (if balance < amount req
      then (Inl (Error (InsufficientBalance (toFixed4 balance) (amount req))), c4)
      else case transaction_create (uuid_transaction g) SPEND PENDING
                  (case description req of Some d \<Rightarrow> Custom d | None \<Rightarrow> SpendOfCredits (amount req)) c4 of
        (Inl e, c5) \<Rightarrow> (Inl e, c5)
      | (Inr transaction, c5) \<Rightarrow>
     (case ledgerEntry_create
             \<lparr>le_id = uuid_ledgerEntry g,
              le_transactionId = t_id transaction,
              le_assetTypeId = assetTypeId req,
              le_debitWalletId = w_id userWallet,
              le_creditWalletId = w_id treasuryWallet,
              le_amount = quantize (amount req),
              le_transactionType = SPEND,
              le_description = (case description req of Some d \<Rightarrow> Custom d | None \<Rightarrow> InAppPurchase),
              le_idempotencyKey = Some (idempotencyKey req)\<rparr> c5 of
        (Inl e, c6) \<Rightarrow> (Inl e, c6)
      | (Inr entry, c6) \<Rightarrow>
     (case transaction_update (t_id transaction) COMPLETED c6 of
        (Inl e, c7) \<Rightarrow> (Inl e, c7)
      | (Inr u, c7) \<Rightarrow>
          (let newBalance = Decimal_minus balance (amount req)
           in (Inr \<lparr>transactionId = t_id transaction, res_amount = Some (amount req),
                     remainingBalance = Some (toFixed4 newBalance), idempotent = False,
                     message = None\<rparr>, c7))))))))"

definition spendCredits :: "uuids \<Rightarrow> request \<Rightarrow> client \<Rightarrow> (error + result) \<times> client" where
  "spendCredits g req c =
     (if amount req \<le> 0 then (Inl (Error AmountMustBePositive), c)
      else case ledgerEntry_findUnique (idempotencyKey req) c of
             (Some existing, c1) \<Rightarrow> (Inr (duplicate existing), c1)
           | (None, c1) \<Rightarrow> prisma_transaction (spendCredits_tx g req) c1)"

subsection \<open>GET BALANCE\<close>

record BalanceResponse =
  br_userId :: string
  br_assetTypeId :: string
  br_assetName :: string
  br_assetSymbol :: string
  br_balance :: string

text \<open>
  \<^verbatim>\<open>include: { assetType: true }\<close> joins the wallet with the asset type its foreign key
  names; a wallet row without one cannot exist under \<^verbatim>\<open>Wallet_assetTypeId_fkey\<close>, and the
  model answers such a row with the store's not-found error.
\<close>

definition getBalance :: "string \<Rightarrow> string \<Rightarrow> client \<Rightarrow> (error + BalanceResponse) \<times> client" where
  "getBalance uid aid c =
     (let c1 = issue (Wallet_findUnique uid aid) c
      in case wallet_lookup (db c) uid aid of
           None \<Rightarrow>
             (let c2 = issue (AssetType_findUniqueOrThrow aid) c1
              in case find (\<lambda>a. at_id a = aid) (assetTypes (db c)) of
                   None \<Rightarrow> (Inl (PrismaClientKnownRequestError ''P2025''), c2)
                 | Some assetType \<Rightarrow>
                     (Inr \<lparr>br_userId = uid, br_assetTypeId = aid, br_assetName = at_name assetType,
                           br_assetSymbol = at_symbol assetType, br_balance = ''0.0000''\<rparr>, c2))
         | Some wallet \<Rightarrow>
             (case find (\<lambda>a. at_id a = w_assetTypeId wallet) (assetTypes (db c)) of
                None \<Rightarrow> (Inl (PrismaClientKnownRequestError ''P2025''), c1)
              | Some assetType \<Rightarrow>
                  (case computeBalance (w_id wallet) c1 of
                     (balance, c2) \<Rightarrow>
                       (Inr \<lparr>br_userId = uid, br_assetTypeId = aid, br_assetName = at_name assetType,
                             br_assetSymbol = at_symbol assetType, br_balance = toFixed4 balance\<rparr>, c2))))"

subsection \<open>Error middleware and request handlers\<close>

datatype failure =
    ValidationError
  | DuplicateRequestDetected
  | RecordNotFound
  | MessageOf error

datatype 'a response = Success nat 'a | Failure nat failure

fun includes_Insufficient_balance :: "message \<Rightarrow> bool" where
  "includes_Insufficient_balance AmountMustBePositive = False"
| "includes_Insufficient_balance (InsufficientBalance available required) = True"

fun errorHandler :: "error \<Rightarrow> 'a response" where
  "errorHandler ZodError = Failure 400 ValidationError"
| "errorHandler (PrismaClientKnownRequestError code) =
     (if code = ''P2002'' then Failure 409 DuplicateRequestDetected
      else if code = ''P2025'' then Failure 404 RecordNotFound
      else Failure 500 (MessageOf (PrismaClientKnownRequestError code)))"
| "errorHandler (Error m) =
     (if includes_Insufficient_balance m then Failure 422 (MessageOf (Error m))
      else Failure 500 (MessageOf (Error m)))"

text \<open>
  The request schema. The pattern that \<^verbatim>\<open>z.string().uuid()\<close> accepts belongs to the
  validation library and is a parameter here.
\<close>

definition TopupSchema_parse :: "(string \<Rightarrow> bool) \<Rightarrow> request \<Rightarrow> error + request" where
  "TopupSchema_parse is_uuid body =
     (if is_uuid (userId body) \<and> is_uuid (assetTypeId body) \<and> 0 < amount body
         \<and> 1 \<le> length (idempotencyKey body) \<and> length (idempotencyKey body) \<le> 255
      then Inr body else Inl ZodError)"

definition respond :: "(error + result) \<times> client \<Rightarrow> result response \<times> client" where
  "respond outcome =
     (case outcome of
        (Inr r, c) \<Rightarrow> (Success (if idempotent r then 200 else 201) r, c)
      | (Inl e, c) \<Rightarrow> (errorHandler e, c))"

definition topup :: "(string \<Rightarrow> bool) \<Rightarrow> uuids \<Rightarrow> request \<Rightarrow> client \<Rightarrow> result response \<times> client" where
  "topup is_uuid g body c =
     (case TopupSchema_parse is_uuid body of
        Inl e \<Rightarrow> (errorHandler e, c)
      | Inr b \<Rightarrow> respond (topupWallet g b c))"

definition bonus :: "(string \<Rightarrow> bool) \<Rightarrow> uuids \<Rightarrow> request \<Rightarrow> client \<Rightarrow> result response \<times> client" where
  "bonus is_uuid g body c =
     (case TopupSchema_parse is_uuid body of
        Inl e \<Rightarrow> (errorHandler e, c)
      | Inr b \<Rightarrow> respond (issueBonus g b c))"

definition spend :: "(string \<Rightarrow> bool) \<Rightarrow> uuids \<Rightarrow> request \<Rightarrow> client \<Rightarrow> result response \<times> client" where
  "spend is_uuid g body c =
     (case TopupSchema_parse is_uuid body of
        Inl e \<Rightarrow> (errorHandler e, c)
      | Inr b \<Rightarrow> respond (spendCredits g b c))"

subsection \<open>Sequences of calls\<close>

datatype call = Topup uuids request | Bonus uuids request | Spend uuids request

fun exec :: "call \<Rightarrow> client \<Rightarrow> (error + result) \<times> client" where
  "exec (Topup g req) c = topupWallet g req c"
| "exec (Bonus g req) c = issueBonus g req c"
| "exec (Spend g req) c = spendCredits g req c"

fun run :: "call list \<Rightarrow> client \<Rightarrow> (error + result) list \<times> client" where
  "run [] c = ([], c)"
| "run (x # xs) c =
     (case exec x c of (r, c1) \<Rightarrow> (case run xs c1 of (rs, c2) \<Rightarrow> (r # rs, c2)))"

subsection \<open>Reading a call\<close>

fun kind_of :: "call \<Rightarrow> TransactionType" where
  "kind_of (Topup g req) = TOPUP"
| "kind_of (Bonus g req) = BONUS"
| "kind_of (Spend g req) = SPEND"

fun request_of :: "call \<Rightarrow> request" where
  "request_of (Topup g req) = req"
| "request_of (Bonus g req) = req"
| "request_of (Spend g req) = req"

subsection \<open>Two requests in a race\<close>

text \<open>
  A mutation is two steps against the store: the statements before its database
  transaction (the amount check and the look-up of the idempotency key), and the database
  transaction. \<open>race a b\<close> is the interleaving in which both requests take the first step
  before either takes the second; the database transactions themselves run one after the
  other, as the row locks and the unique index make them.
\<close>

definition fast_path :: "request \<Rightarrow> client \<Rightarrow> (error + result) option \<times> client" where
  "fast_path req c =
     (if amount req \<le> 0 then (Some (Inl (Error AmountMustBePositive)), c)
      else case ledgerEntry_findUnique (idempotencyKey req) c of
             (Some existing, c1) \<Rightarrow> (Some (Inr (duplicate existing)), c1)
           | (None, c1) \<Rightarrow> (None, c1))"

fun transaction_of :: "call \<Rightarrow> client \<Rightarrow> (error + result) \<times> client" where
  "transaction_of (Topup g req) c = prisma_transaction (topupWallet_tx g req) c"
| "transaction_of (Bonus g req) c = prisma_transaction (issueBonus_tx g req) c"
| "transaction_of (Spend g req) c = prisma_transaction (spendCredits_tx g req) c"

definition finish :: "call \<Rightarrow> (error + result) option \<Rightarrow> client \<Rightarrow> (error + result) \<times> client" where
  "finish x checked c = (case checked of Some outcome \<Rightarrow> (outcome, c) | None \<Rightarrow> transaction_of x c)"


subsection \<open>What a committed transfer looks like\<close>

text \<open>
  \<open>posted k req d d' r uw tw su e t\<close> collects what holds when a request \<open>req\<close> of kind \<open>k\<close>
  has gone through its database transaction from tables \<open>d\<close> to tables \<open>d'\<close> with result
  \<open>r\<close>: the user's wallet \<open>uw\<close>, the wallet \<open>tw\<close> of the first system user \<open>su\<close>, the one
  entry \<open>e\<close> and the one transaction row \<open>t\<close> that were appended.
\<close>

definition posted ::
  "TransactionType \<Rightarrow> request \<Rightarrow> database \<Rightarrow> database \<Rightarrow> result \<Rightarrow> Wallet \<Rightarrow> Wallet \<Rightarrow> User
     \<Rightarrow> LedgerEntry \<Rightarrow> Transaction \<Rightarrow> bool" where
  "posted k req d d' r uw tw su e t \<longleftrightarrow>
     0 < amount req
   \<and> find (\<lambda>e. le_idempotencyKey e = Some (idempotencyKey req)) (ledgerEntries d) = None
   \<and> find u_isSystem (users d) = Some su
   \<and> wallet_lookup d' (userId req) (assetTypeId req) = Some uw
   \<and> wallet_lookup d' (u_id su) (assetTypeId req) = Some tw
   \<and> uw \<in> set (wallets d') \<and> tw \<in> set (wallets d')
   \<and> w_userId uw = userId req \<and> w_userId tw = u_id su
   \<and> set (wallets d) \<subseteq> set (wallets d')
   \<and> (distinct (map w_id (wallets d)) \<longrightarrow> distinct (map w_id (wallets d')))
   \<and> users d' = users d \<and> assetTypes d' = assetTypes d
   \<and> ledgerEntries d' = ledgerEntries d @ [e]
   \<and> le_transactionType e = k
   \<and> le_idempotencyKey e = Some (idempotencyKey req)
   \<and> le_amount e = quantize (amount req)
   \<and> le_transactionId e = transactionId r
   \<and> le_assetTypeId e = assetTypeId req
   \<and> le_debitWalletId e = (if k = SPEND then w_id uw else w_id tw)
   \<and> le_creditWalletId e = (if k = SPEND then w_id tw else w_id uw)
   \<and> transactions d' = transactions d @ [t]
   \<and> t_id t = transactionId r \<and> t_type t = k \<and> t_status t = COMPLETED
   \<and> (k = SPEND \<longrightarrow> amount req \<le> decimal4 (balance_query (ledgerEntries d) (w_id uw)))
   \<and> res_amount r = Some (amount req) \<and> \<not> idempotent r"

subsection \<open>Value issued from a wallet\<close>


subsection \<open>A small store to evaluate on\<close>

text \<open>
  One asset, the treasury user and one player, their two wallets, and one top-up of
  50.0000 from the treasury wallet to the player's, in the shape of the rows of seed.sql.
\<close>

definition demo :: client where
  "demo =
     \<lparr>db = \<lparr>assetTypes = [\<lparr>at_id = ''G'', at_name = ''Gold Coins'', at_symbol = ''GC''\<rparr>],
            users =
              [\<lparr>u_id = ''T'', u_username = ''treasury'', u_email = ''treasury@system.internal'',
                u_isSystem = True\<rparr>,
               \<lparr>u_id = ''A'', u_username = ''alice'', u_email = ''alice@example.com'',
                u_isSystem = False\<rparr>],
            wallets =
              [\<lparr>w_id = ''w1'', w_userId = ''T'', w_assetTypeId = ''G''\<rparr>,
               \<lparr>w_id = ''w2'', w_userId = ''A'', w_assetTypeId = ''G''\<rparr>],
            transactions =
              [\<lparr>t_id = ''t0'', t_type = TOPUP, t_status = COMPLETED,
                t_description = Custom ''Initial seed balances''\<rparr>],
            ledgerEntries =
              [\<lparr>le_id = ''e0'', le_transactionId = ''t0'', le_assetTypeId = ''G'',
                le_debitWalletId = ''w1'', le_creditWalletId = ''w2'', le_amount = 500000,
                le_transactionType = TOPUP, le_description = Custom ''Alice initial Gold Coins'',
                le_idempotencyKey = Some ''seed-alice-gc''\<rparr>]\<rparr>,
      queries = []\<rparr>"

definition demo_uuids :: uuids where
  "demo_uuids =
     \<lparr>uuid_userWallet = ''w3'', uuid_treasuryWallet = ''w4'', uuid_transaction = ''t1'',
      uuid_ledgerEntry = ''e1''\<rparr>"

definition demo_request :: request where
  "demo_request =
     \<lparr>userId = ''A'', assetTypeId = ''G'', amount = 30, idempotencyKey = ''k1'',
      description = None\<rparr>"

definition demo_uuids2 :: uuids where
  "demo_uuids2 =
     \<lparr>uuid_userWallet = ''w5'', uuid_treasuryWallet = ''w6'', uuid_transaction = ''t2'',
      uuid_ledgerEntry = ''e2''\<rparr>"



section \<open>Properties\<close>

subsection \<open>Basic facts about the store operations\<close>

lemma db_issue: "db (issue q c) = db c"
  by (simp add: issue_def)


lemma db_lock_each: "db (lock_each ids c) = db c"
  by (induction ids arbitrary: c) (simp_all add: db_issue)


lemma db_lockWalletsInOrder: "db (lockWalletsInOrder ids c) = db c"
  by (simp add: lockWalletsInOrder_def db_lock_each)


lemma sum_if_filter:
  "(\<And>x. P x \<Longrightarrow> Q x) \<Longrightarrow>
   sum_list (map (\<lambda>e. if P e then f e else (0::int)) (filter Q xs)) = sum_list (map f (filter P xs))"
  by (induction xs) auto

text \<open>The balance query is the sum of the credits minus the sum of the debits.\<close>

lemma balance_query_eq:
  "balance_query es w =
     sum_list (map le_amount (filter (\<lambda>e. le_creditWalletId e = w) es))
   - sum_list (map le_amount (filter (\<lambda>e. le_debitWalletId e = w) es))"
proof -
  let ?rows = "filter (\<lambda>e. le_creditWalletId e = w \<or> le_debitWalletId e = w) es"
  have c: "sum_list (map (\<lambda>e. if le_creditWalletId e = w then le_amount e else 0) ?rows)
           = sum_list (map le_amount (filter (\<lambda>e. le_creditWalletId e = w) es))"
    by (rule sum_if_filter) simp
  have d: "sum_list (map (\<lambda>e. if le_debitWalletId e = w then le_amount e else 0) ?rows)
           = sum_list (map le_amount (filter (\<lambda>e. le_debitWalletId e = w) es))"
    by (rule sum_if_filter) simp
  show ?thesis
  proof (cases "?rows = []")
    case True
    then have "filter (\<lambda>e. le_creditWalletId e = w) es = []"
      and "filter (\<lambda>e. le_debitWalletId e = w) es = []"
      by (auto simp: filter_empty_conv)
    with True show ?thesis by (simp add: balance_query_def)
  next
    case False
    then show ?thesis using c d by (simp add: balance_query_def Let_def)
  qed
qed

lemma round_half_up_of_int: "round_half_up (of_int u) = u"
proof -
  have "\<lfloor>(of_int u :: rat) + 1 / 2\<rfloor> = u" by (rule floor_unique) simp_all
  moreover have "\<lfloor>- (of_int u :: rat) + 1 / 2\<rfloor> = - u" by (rule floor_unique) simp_all
  ultimately show ?thesis by (simp add: round_half_up_def)
qed

text \<open>The exponent is the position of the leading digit.\<close>

lemma exponent10_bounds:
  assumes "x \<noteq> 0"
  shows "10 powi exponent10 x \<le> \<bar>x\<bar>" and "\<bar>x\<bar> < 10 powi (exponent10 x + 1)"
proof -
  obtain n d where q: "quotient_of \<bar>x\<bar> = (n, d)" by (cases "quotient_of \<bar>x\<bar>")
  have d: "0 < d" using q by (rule quotient_of_denom_pos)
  have x: "\<bar>x\<bar> = of_int n / of_int d" using q by (rule quotient_of_div)
  have n: "0 < n"
  proof -
    have "0 < \<bar>x\<bar>" using assms by simp
    then have "0 < (of_int n :: rat) / of_int d" using x by simp
    then show ?thesis using d by (simp add: zero_less_divide_iff)
  qed
  let ?ln = "floorlog 10 (nat n)" and ?ld = "floorlog 10 (nat d)"
  let ?e0 = "int ?ln - int ?ld"
  have bn: "10 ^ (?ln - 1) \<le> nat n" "nat n < 10 ^ ?ln"
    using floorlog_bounds [of "nat n" 10] n by simp_all
  have bd: "10 ^ (?ld - 1) \<le> nat d" "nat d < 10 ^ ?ld"
    using floorlog_bounds [of "nat d" 10] d by simp_all
  have ln: "0 < ?ln" using n by (simp add: floorlog_def)
  have ld: "0 < ?ld" using d by (simp add: floorlog_def)
  have rn: "(10::rat) ^ (?ln - 1) \<le> of_int n" "(of_int n :: rat) < 10 ^ ?ln"
  proof -
    have "(of_nat (10 ^ (?ln - 1)) :: rat) \<le> of_nat (nat n)" using bn(1) by (simp only: of_nat_le_iff)
    then show "(10::rat) ^ (?ln - 1) \<le> of_int n" using n by simp
    have "(of_nat (nat n) :: rat) < of_nat (10 ^ ?ln)" using bn(2) by (simp only: of_nat_less_iff)
    then show "(of_int n :: rat) < 10 ^ ?ln" using n by simp
  qed
  have rd: "(10::rat) ^ (?ld - 1) \<le> of_int d" "(of_int d :: rat) < 10 ^ ?ld"
  proof -
    have "(of_nat (10 ^ (?ld - 1)) :: rat) \<le> of_nat (nat d)" using bd(1) by (simp only: of_nat_le_iff)
    then show "(10::rat) ^ (?ld - 1) \<le> of_int d" using d by simp
    have "(of_nat (nat d) :: rat) < of_nat (10 ^ ?ld)" using bd(2) by (simp only: of_nat_less_iff)
    then show "(of_int d :: rat) < 10 ^ ?ld" using d by simp
  qed
  have dpos: "0 < (of_int d :: rat)" using d by simp
  have low: "(10::rat) powi (?e0 - 1) \<le> \<bar>x\<bar>"
  proof -
    have "(10::rat) powi (?e0 - 1) = 10 ^ (?ln - 1) / 10 ^ ?ld"
    proof -
      have a: "?e0 - 1 = int (?ln - 1) - int ?ld" using ln by simp
      have "(10::rat) powi (?e0 - 1) = 10 powi (int (?ln - 1) - int ?ld)" by (simp only: a)
      also have "\<dots> = 10 powi int (?ln - 1) / 10 powi int ?ld" by (rule power_int_diff) simp
      also have "\<dots> = 10 ^ (?ln - 1) / 10 ^ ?ld" by (simp only: power_int_of_nat)
      finally show ?thesis .
    qed
    also have "\<dots> \<le> of_int n / 10 ^ ?ld"
      using rn(1) by (simp add: divide_right_mono)
    also have "\<dots> \<le> of_int n / of_int d"
      using rd(2) dpos n by (intro divide_left_mono) (simp_all add: less_imp_le)
    finally show ?thesis using x by simp
  qed
  have up: "\<bar>x\<bar> < (10::rat) powi (?e0 + 1)"
  proof -
    have "of_int n / of_int d < (10::rat) ^ ?ln / of_int d"
      using rn(2) dpos by (simp add: divide_strict_right_mono)
    also have "\<dots> \<le> 10 ^ ?ln / 10 ^ (?ld - 1)"
      using rd(1) dpos by (intro divide_left_mono) simp_all
    also have "\<dots> = (10::rat) powi (?e0 + 1)"
    proof -
      have a: "?e0 + 1 = int ?ln - int (?ld - 1)" using ld by simp
      have "(10::rat) powi (?e0 + 1) = 10 powi (int ?ln - int (?ld - 1))" by (simp only: a)
      also have "\<dots> = 10 powi int ?ln / 10 powi int (?ld - 1)" by (rule power_int_diff) simp
      also have "\<dots> = 10 ^ ?ln / 10 ^ (?ld - 1)" by (simp only: power_int_of_nat)
      finally show ?thesis by simp
    qed
    finally show ?thesis using x by simp
  qed
  have e: "exponent10 x = (if 10 powi ?e0 \<le> \<bar>x\<bar> then ?e0 else ?e0 - 1)"
    by (simp add: exponent10_def q Let_def)
  show "10 powi exponent10 x \<le> \<bar>x\<bar>" using e low by auto
  show "\<bar>x\<bar> < 10 powi (exponent10 x + 1)" using e up by (auto simp: not_le)
qed

lemma exponent10_less:
  assumes "x \<noteq> 0" and "\<bar>x\<bar> < 10 powi k"
  shows "exponent10 x < k"
proof (rule ccontr)
  assume "\<not> exponent10 x < k"
  then have "k \<le> exponent10 x" by simp
  then have "(10::rat) powi k \<le> 10 powi exponent10 x"
    by (rule power_int_increasing) simp
  with exponent10_bounds(1) [OF assms(1)] assms(2) show False by linarith
qed

text \<open>A number of at most twenty digits, four of them after the point, is not rounded.\<close>

lemma round_significant_decimal4:
  assumes "\<bar>u\<bar> < 10 ^ 20"
  shows "round_significant 20 (decimal4 u) = decimal4 u"
proof (cases "u = 0")
  case True
  then show ?thesis by (simp add: round_significant_def decimal4_def)
next
  case False
  let ?x = "decimal4 u"
  let ?e = "exponent10 ?x"
  have nz: "?x \<noteq> 0" using False by (simp add: decimal4_def)
  have "\<bar>?x\<bar> < 10 powi 16"
  proof -
    have "(of_int \<bar>u\<bar> :: rat) < of_int (10 ^ 20)"
      using assms by (simp only: of_int_less_iff)
    then show ?thesis by (simp add: decimal4_def)
  qed
  then have e: "?e < 16" using nz by (intro exponent10_less)
  define m where "m = nat (15 - ?e)"
  have m: "int m = 15 - ?e" using e by (simp add: m_def)
  have s: "(10::rat) powi (?e - int 20 + 1) = 1 / (10 ^ 4 * 10 ^ m)"
  proof -
    have "?e - int 20 + 1 = - int (4 + m)" using m by simp
    then have "(10::rat) powi (?e - int 20 + 1) = 10 powi (- int (4 + m))" by simp
    also have "\<dots> = inverse (10 ^ (4 + m))" by (simp only: power_int_minus power_int_of_nat)
    finally show ?thesis by (simp add: power_add inverse_eq_divide)
  qed
  have q: "?x / (10 powi (?e - int 20 + 1)) = of_int (u * 10 ^ m)"
    by (simp only: s) (simp add: decimal4_def)
  have "round_significant 20 ?x = of_int (round_half_up (of_int (u * 10 ^ m))) * (10 powi (?e - int 20 + 1))"
    using nz by (simp only: round_significant_def Let_def q if_False)
  also have "\<dots> = of_int (u * 10 ^ m) * (1 / (10 ^ 4 * 10 ^ m))"
    by (simp only: round_half_up_of_int s)
  also have "\<dots> = ?x" by (simp add: decimal4_def)
  finally show ?thesis .
qed

lemma Decimal_minus_50_30: "Decimal_minus 50 30 = 20"
proof -
  have "round_significant 20 (decimal4 200000) = decimal4 200000"
    by (rule round_significant_decimal4) simp
  then show ?thesis by (simp add: Decimal_minus_def decimal4_def)
qed

text \<open>Rendering a stored amount does not round.\<close>

lemma quantize_decimal4: "quantize (decimal4 u) = u"
  by (simp add: quantize_def decimal4_def round_half_up_of_int)

lemma replicate_3: "replicate 3 x = [x, x, x]"
  by (simp add: numeral_3_eq_3)

lemma toFixed4_50: "toFixed4 (decimal4 500000) = ''50.0000''"
proof -
  have "toFixed4 (decimal4 500000) = digits 50 @ ''.'' @ pad4 (digits 0)"
    by (simp add: toFixed4_def quantize_decimal4 Let_def) (simp add: decimal4_def)
  then show ?thesis
    by (simp add: digits.simps pad4_def replicate_3)
qed

lemma length_digits: "n < 10 ^ k \<Longrightarrow> 0 < k \<Longrightarrow> length (digits n) \<le> k"
proof (induction k arbitrary: n)
  case 0
  then show ?case by simp
next
  case (Suc k)
  show ?case
  proof (cases "n < 10")
    case True
    then show ?thesis by (simp add: digits.simps)
  next
    case False
    then have k: "0 < k" using Suc.prems(1) by (cases k) auto
    have "n div 10 < 10 ^ k" using Suc.prems(1) by (simp add: less_mult_imp_div_less mult.commute)
    then have "length (digits (n div 10)) \<le> k" using k by (rule Suc.IH)
    then show ?thesis using False by (subst digits.simps) simp
  qed
qed

lemma length_pad4: "length s \<le> 4 \<Longrightarrow> length (pad4 s) = 4"
  by (simp add: pad4_def)

text \<open>The rendering has exactly four digits after the point.\<close>

lemma toFixed4_fraction: "\<exists>whole frac. toFixed4 x = whole @ ''.'' @ frac \<and> length frac = 4"
proof -
  let ?u = "nat \<bar>quantize x\<bar>"
  have "length (digits (?u mod 10000)) \<le> 4"
    by (rule length_digits) simp_all
  then have "length (pad4 (digits (?u mod 10000))) = 4" by (rule length_pad4)
  moreover have "toFixed4 x = ((if x < 0 then ''-'' else '''') @ digits (?u div 10000)) @ ''.''
                                @ pad4 (digits (?u mod 10000))"
    by (simp add: toFixed4_def Let_def)
  ultimately show ?thesis by blast
qed


lemma db_getBalance: "db (snd (getBalance uid aid c)) = db c"
  by (simp add: getBalance_def Let_def db_issue computeBalance_def split: option.splits)

subsection \<open>What each database transaction does when it commits\<close>

lemma find_append_None: "find P xs = None \<Longrightarrow> find P (xs @ [x]) = (if P x then Some x else None)"
  by (induction xs) (auto split: if_splits)

lemma find_append_Some: "find P xs = Some y \<Longrightarrow> find P (xs @ zs) = Some y"
  by (induction xs) (auto split: if_splits)

lemma map_update_absent: "n \<notin> set (map t_id ts) \<Longrightarrow> map (\<lambda>t. if t_id t = n then f t else t) ts = ts"
  by (induction ts) auto

lemma getOrCreateWallet_Inr:
  assumes "getOrCreateWallet n u a c = (Inr w, c')"
  shows "wallet_lookup (db c') u a = Some w"
    and "w_userId w = u" and "w_assetTypeId w = a"
    and "ledgerEntries (db c') = ledgerEntries (db c)"
    and "transactions (db c') = transactions (db c)"
    and "users (db c') = users (db c)"
    and "assetTypes (db c') = assetTypes (db c)"
    and "wallets (db c') = wallets (db c) \<or>
         (wallets (db c') = wallets (db c) @ [w] \<and> w_id w \<notin> set (map w_id (wallets (db c)))
           \<and> wallet_lookup (db c) u a = None)"
    and "w \<in> set (wallets (db c'))"
  using assms
  by (auto simp: getOrCreateWallet_def wallet_lookup_def Let_def db_issue issue_def find_append_None
           split: option.splits if_splits dest: find_Some_iff[THEN iffD1])

lemma getTreasuryWallet_Inr:
  assumes "getTreasuryWallet n a c = (Inr w, c')"
  obtains su where "find u_isSystem (users (db c)) = Some su"
    and "getOrCreateWallet n (u_id su) a (issue User_findFirstOrThrow c) = (Inr w, c')"
  using assms by (auto simp: getTreasuryWallet_def Let_def split: option.splits)

lemma transaction_create_Inr:
  assumes "transaction_create n ty st d c = (Inr t, c')"
  shows "t = \<lparr>t_id = n, t_type = ty, t_status = st, t_description = d\<rparr>"
    and "n \<notin> set (map t_id (transactions (db c)))"
    and "db c' = (db c)\<lparr>transactions := transactions (db c) @ [t]\<rparr>"
  using assms by (auto simp: transaction_create_def Let_def issue_def split: if_splits)

lemma ledgerEntry_create_Inr:
  assumes "ledgerEntry_create e c = (Inr e', c')"
  shows "e' = e"
    and "le_idempotencyKey e \<noteq> None \<Longrightarrow> le_idempotencyKey e \<notin> set (map le_idempotencyKey (ledgerEntries (db c)))"
    and "db c' = (db c)\<lparr>ledgerEntries := ledgerEntries (db c) @ [e]\<rparr>"
  using assms by (auto simp: ledgerEntry_create_def Let_def issue_def split: if_splits)

lemma transaction_update_Inr:
  assumes "transaction_update tid st c = (Inr u, c')"
  shows "db c' = (db c)\<lparr>transactions :=
            map (\<lambda>t. if t_id t = tid then t\<lparr>t_status := st\<rparr> else t) (transactions (db c))\<rparr>"
  using assms by (auto simp: transaction_update_def Let_def issue_def split: if_splits)

lemma topupWallet_tx_Inr:
  assumes "topupWallet_tx g req c = (Inr r, c')"
  obtains uw tw c1 c2 where
      "getOrCreateWallet (uuid_userWallet g) (userId req) (assetTypeId req) c = (Inr uw, c1)"
      "getTreasuryWallet (uuid_treasuryWallet g) (assetTypeId req) c1 = (Inr tw, c2)"
      "Some (idempotencyKey req) \<notin> set (map le_idempotencyKey (ledgerEntries (db c2)))"
      "db c' = (db c2)
         \<lparr>transactions := transactions (db c2) @
            [\<lparr>t_id = uuid_transaction g, t_type = TOPUP, t_status = COMPLETED,
              t_description = (case description req of Some d \<Rightarrow> Custom d | None \<Rightarrow> TopUpOfCredits (amount req))\<rparr>],
          ledgerEntries := ledgerEntries (db c2) @
            [\<lparr>le_id = uuid_ledgerEntry g,
              le_transactionId = uuid_transaction g,
              le_assetTypeId = assetTypeId req,
              le_debitWalletId = w_id tw,
              le_creditWalletId = w_id uw,
              le_amount = quantize (amount req),
              le_transactionType = TOPUP,
              le_description = (case description req of Some d \<Rightarrow> Custom d | None \<Rightarrow> TopUpPurchase),
              le_idempotencyKey = Some (idempotencyKey req)\<rparr>]\<rparr>"
      "r = \<lparr>transactionId = uuid_transaction g, res_amount = Some (amount req),
                remainingBalance = None, idempotent = False, message = None\<rparr>"
proof -
  from assms obtain uw c1 where 1: "getOrCreateWallet (uuid_userWallet g) (userId req) (assetTypeId req) c = (Inr uw, c1)"
    by (auto simp: topupWallet_tx_def split: prod.splits sum.splits)
  from assms 1 obtain tw c2 where 2: "getTreasuryWallet (uuid_treasuryWallet g) (assetTypeId req) c1 = (Inr tw, c2)"
    by (auto simp: topupWallet_tx_def split: prod.splits sum.splits)
  let ?c3 = "lockWalletsInOrder [w_id uw, w_id tw] c2"
  from assms 1 2 obtain t c4 where 3: "transaction_create (uuid_transaction g) TOPUP COMPLETED
                (case description req of Some d \<Rightarrow> Custom d | None \<Rightarrow> TopUpOfCredits (amount req)) ?c3 = (Inr t, c4)"
    by (auto simp: topupWallet_tx_def Let_def split: prod.splits sum.splits)
  let ?e = "\<lparr>le_id = uuid_ledgerEntry g,
              le_transactionId = t_id t,
              le_assetTypeId = assetTypeId req,
              le_debitWalletId = w_id tw,
              le_creditWalletId = w_id uw,
              le_amount = quantize (amount req),
              le_transactionType = TOPUP,
              le_description = (case description req of Some d \<Rightarrow> Custom d | None \<Rightarrow> TopUpPurchase),
              le_idempotencyKey = Some (idempotencyKey req)\<rparr>"
  from assms 1 2 3 obtain e' c5 where 4: "ledgerEntry_create ?e c4 = (Inr e', c5)"
    by (auto simp: topupWallet_tx_def Let_def split: prod.splits sum.splits)
  from assms 1 2 3 4 obtain u where 5: "transaction_update (t_id t) COMPLETED c5 = (Inr u, c')"
    and r: "r = \<lparr>transactionId = t_id t, res_amount = Some (amount req),
                remainingBalance = None, idempotent = False, message = None\<rparr>"
    by (auto simp: topupWallet_tx_def Let_def split: prod.splits sum.splits)
  note t = transaction_create_Inr [OF 3]
  note e = ledgerEntry_create_Inr [OF 4]
  note u = transaction_update_Inr [OF 5]
  have tid: "t_id t = uuid_transaction g" using t(1) by simp
  have db4: "db c4 = (db c2)\<lparr>transactions := transactions (db c2) @ [t]\<rparr>"
    using t(3) by (simp add: db_lockWalletsInOrder)
  have fresh: "uuid_transaction g \<notin> set (map t_id (transactions (db c2)))"
    using t(2) by (simp add: db_lockWalletsInOrder)
  have key: "Some (idempotencyKey req) \<notin> set (map le_idempotencyKey (ledgerEntries (db c2)))"
    using e(2) db4 by simp
  have "db c' = (db c2)\<lparr>transactions := transactions (db c2) @ [t],
                         ledgerEntries := ledgerEntries (db c2) @ [?e]\<rparr>"
    using u e(3) db4 fresh t(1) by (simp add: tid map_update_absent)
  then show ?thesis
    using that [OF 1 2 key _ ] r t(1) tid by simp
qed

lemma issueBonus_tx_Inr:
  assumes "issueBonus_tx g req c = (Inr r, c')"
  obtains uw tw c1 c2 where
      "getOrCreateWallet (uuid_userWallet g) (userId req) (assetTypeId req) c = (Inr uw, c1)"
      "getTreasuryWallet (uuid_treasuryWallet g) (assetTypeId req) c1 = (Inr tw, c2)"
      "Some (idempotencyKey req) \<notin> set (map le_idempotencyKey (ledgerEntries (db c2)))"
      "db c' = (db c2)
         \<lparr>transactions := transactions (db c2) @
            [\<lparr>t_id = uuid_transaction g, t_type = BONUS, t_status = COMPLETED,
              t_description = (case description req of Some d \<Rightarrow> Custom d | None \<Rightarrow> BonusOfCredits (amount req))\<rparr>],
          ledgerEntries := ledgerEntries (db c2) @
            [\<lparr>le_id = uuid_ledgerEntry g,
              le_transactionId = uuid_transaction g,
              le_assetTypeId = assetTypeId req,
              le_debitWalletId = w_id tw,
              le_creditWalletId = w_id uw,
              le_amount = quantize (amount req),
              le_transactionType = BONUS,
              le_description = (case description req of Some d \<Rightarrow> Custom d | None \<Rightarrow> BonusIncentiveCredit),
              le_idempotencyKey = Some (idempotencyKey req)\<rparr>]\<rparr>"
      "r = \<lparr>transactionId = uuid_transaction g, res_amount = Some (amount req),
                remainingBalance = None, idempotent = False, message = None\<rparr>"
proof -
  from assms obtain uw c1 where 1: "getOrCreateWallet (uuid_userWallet g) (userId req) (assetTypeId req) c = (Inr uw, c1)"
    by (auto simp: issueBonus_tx_def split: prod.splits sum.splits)
  from assms 1 obtain tw c2 where 2: "getTreasuryWallet (uuid_treasuryWallet g) (assetTypeId req) c1 = (Inr tw, c2)"
    by (auto simp: issueBonus_tx_def split: prod.splits sum.splits)
  let ?c3 = "lockWalletsInOrder [w_id uw, w_id tw] c2"
  from assms 1 2 obtain t c4 where 3: "transaction_create (uuid_transaction g) BONUS PENDING
                (case description req of Some d \<Rightarrow> Custom d | None \<Rightarrow> BonusOfCredits (amount req)) ?c3 = (Inr t, c4)"
    by (auto simp: issueBonus_tx_def Let_def split: prod.splits sum.splits)
  let ?e = "\<lparr>le_id = uuid_ledgerEntry g,
              le_transactionId = t_id t,
              le_assetTypeId = assetTypeId req,
              le_debitWalletId = w_id tw,
              le_creditWalletId = w_id uw,
              le_amount = quantize (amount req),
              le_transactionType = BONUS,
              le_description = (case description req of Some d \<Rightarrow> Custom d | None \<Rightarrow> BonusIncentiveCredit),
              le_idempotencyKey = Some (idempotencyKey req)\<rparr>"
  from assms 1 2 3 obtain e' c5 where 4: "ledgerEntry_create ?e c4 = (Inr e', c5)"
    by (auto simp: issueBonus_tx_def Let_def split: prod.splits sum.splits)
  from assms 1 2 3 4 obtain u where 5: "transaction_update (t_id t) COMPLETED c5 = (Inr u, c')"
    and r: "r = \<lparr>transactionId = t_id t, res_amount = Some (amount req),
                remainingBalance = None, idempotent = False, message = None\<rparr>"
    by (auto simp: issueBonus_tx_def Let_def split: prod.splits sum.splits)
  note t = transaction_create_Inr [OF 3]
  note e = ledgerEntry_create_Inr [OF 4]
  note u = transaction_update_Inr [OF 5]
  have tid: "t_id t = uuid_transaction g" using t(1) by simp
  have db4: "db c4 = (db c2)\<lparr>transactions := transactions (db c2) @ [t]\<rparr>"
    using t(3) by (simp add: db_lockWalletsInOrder)
  have fresh: "uuid_transaction g \<notin> set (map t_id (transactions (db c2)))"
    using t(2) by (simp add: db_lockWalletsInOrder)
  have key: "Some (idempotencyKey req) \<notin> set (map le_idempotencyKey (ledgerEntries (db c2)))"
    using e(2) db4 by simp
  have "db c' = (db c2)\<lparr>transactions := transactions (db c2) @ [t\<lparr>t_status := COMPLETED\<rparr>],
                         ledgerEntries := ledgerEntries (db c2) @ [?e]\<rparr>"
    using u e(3) db4 fresh t(1) by (simp add: tid map_update_absent)
  then show ?thesis
    using that [OF 1 2 key _ ] r t(1) tid by simp
qed


lemma spendCredits_tx_Inr:
  assumes "spendCredits_tx g req c = (Inr r, c')"
  obtains uw tw c1 c2 where
      "getOrCreateWallet (uuid_userWallet g) (userId req) (assetTypeId req) c = (Inr uw, c1)"
      "getTreasuryWallet (uuid_treasuryWallet g) (assetTypeId req) c1 = (Inr tw, c2)"
      "Some (idempotencyKey req) \<notin> set (map le_idempotencyKey (ledgerEntries (db c2)))"
      "db c' = (db c2)
         \<lparr>transactions := transactions (db c2) @
            [\<lparr>t_id = uuid_transaction g, t_type = SPEND, t_status = COMPLETED,
              t_description = (case description req of Some d \<Rightarrow> Custom d | None \<Rightarrow> SpendOfCredits (amount req))\<rparr>],
          ledgerEntries := ledgerEntries (db c2) @
            [\<lparr>le_id = uuid_ledgerEntry g,
              le_transactionId = uuid_transaction g,
              le_assetTypeId = assetTypeId req,
              le_debitWalletId = w_id uw,
              le_creditWalletId = w_id tw,
              le_amount = quantize (amount req),
              le_transactionType = SPEND,
              le_description = (case description req of Some d \<Rightarrow> Custom d | None \<Rightarrow> InAppPurchase),
              le_idempotencyKey = Some (idempotencyKey req)\<rparr>]\<rparr>"
      "r = \<lparr>transactionId = uuid_transaction g, res_amount = Some (amount req),
            remainingBalance =
              Some (toFixed4 (Decimal_minus (decimal4 (balance_query (ledgerEntries (db c2)) (w_id uw)))
                               (amount req))),
            idempotent = False, message = None\<rparr>"
      "amount req \<le> decimal4 (balance_query (ledgerEntries (db c2)) (w_id uw))"
proof -
  from assms obtain uw c1 where 1: "getOrCreateWallet (uuid_userWallet g) (userId req) (assetTypeId req) c = (Inr uw, c1)"
    by (auto simp: spendCredits_tx_def split: prod.splits sum.splits)
  from assms 1 obtain tw c2 where 2: "getTreasuryWallet (uuid_treasuryWallet g) (assetTypeId req) c1 = (Inr tw, c2)"
    by (auto simp: spendCredits_tx_def split: prod.splits sum.splits)
  let ?c3 = "lockWalletsInOrder [w_id uw, w_id tw] c2"
  let ?b = "decimal4 (balance_query (ledgerEntries (db c2)) (w_id uw))"
  let ?c4 = "issue (LedgerEntry_balance (w_id uw)) ?c3"
  have bal: "computeBalanceInTx (w_id uw) ?c3 = (?b, ?c4)"
    by (simp add: computeBalanceInTx_def db_lockWalletsInOrder)
  from assms 1 2 bal have guard: "\<not> ?b < amount req"
    by (auto simp: spendCredits_tx_def Let_def split: prod.splits sum.splits if_splits)
  from assms 1 2 bal guard obtain t c5 where 3: "transaction_create (uuid_transaction g) SPEND PENDING
                (case description req of Some d \<Rightarrow> Custom d | None \<Rightarrow> SpendOfCredits (amount req)) ?c4 = (Inr t, c5)"
    by (auto simp: spendCredits_tx_def Let_def split: prod.splits sum.splits)
  let ?e = "\<lparr>le_id = uuid_ledgerEntry g,
              le_transactionId = t_id t,
              le_assetTypeId = assetTypeId req,
              le_debitWalletId = w_id uw,
              le_creditWalletId = w_id tw,
              le_amount = quantize (amount req),
              le_transactionType = SPEND,
              le_description = (case description req of Some d \<Rightarrow> Custom d | None \<Rightarrow> InAppPurchase),
              le_idempotencyKey = Some (idempotencyKey req)\<rparr>"
  from assms 1 2 bal guard 3 obtain e' c6 where 4: "ledgerEntry_create ?e c5 = (Inr e', c6)"
    by (auto simp: spendCredits_tx_def Let_def split: prod.splits sum.splits)
  from assms 1 2 bal guard 3 4 obtain u where 5: "transaction_update (t_id t) COMPLETED c6 = (Inr u, c')"
    and r: "r = \<lparr>transactionId = t_id t, res_amount = Some (amount req),
                remainingBalance = Some (toFixed4 (Decimal_minus ?b (amount req))), idempotent = False,
                message = None\<rparr>"
    by (auto simp: spendCredits_tx_def Let_def split: prod.splits sum.splits)
  note t = transaction_create_Inr [OF 3]
  note e = ledgerEntry_create_Inr [OF 4]
  note u = transaction_update_Inr [OF 5]
  have tid: "t_id t = uuid_transaction g" using t(1) by simp
  have db5: "db c5 = (db c2)\<lparr>transactions := transactions (db c2) @ [t]\<rparr>"
    using t(3) by (simp add: db_lockWalletsInOrder db_issue)
  have fresh: "uuid_transaction g \<notin> set (map t_id (transactions (db c2)))"
    using t(2) by (simp add: db_lockWalletsInOrder db_issue)
  have key: "Some (idempotencyKey req) \<notin> set (map le_idempotencyKey (ledgerEntries (db c2)))"
    using e(2) db5 by simp
  have "db c' = (db c2)\<lparr>transactions := transactions (db c2) @ [t\<lparr>t_status := COMPLETED\<rparr>],
                         ledgerEntries := ledgerEntries (db c2) @ [?e]\<rparr>"
    using u e(3) db5 fresh t(1) by (simp add: tid map_update_absent)
  moreover have "amount req \<le> ?b" using guard by simp
  ultimately show ?thesis
    using that [OF 1 2 key _ _ ] r t(1) tid by simp
qed

lemma wallet_lookup_wallets: "wallets d' = wallets d \<Longrightarrow> wallet_lookup d' u a = wallet_lookup d u a"
  by (simp add: wallet_lookup_def)

lemma wallet_lookup_append:
  "wallet_lookup d u a = Some w \<Longrightarrow> wallets d' = wallets d @ ws \<Longrightarrow> wallet_lookup d' u a = Some w"
  by (simp add: wallet_lookup_def find_append_Some)

lemma resolve_wallets:
  assumes 1: "getOrCreateWallet n1 u a c = (Inr uw, c1)"
    and 2: "getTreasuryWallet n2 a c1 = (Inr tw, c2)"
  obtains su where "find u_isSystem (users (db c)) = Some su"
    and "wallet_lookup (db c2) u a = Some uw"
    and "wallet_lookup (db c2) (u_id su) a = Some tw"
    and "ledgerEntries (db c2) = ledgerEntries (db c)"
    and "transactions (db c2) = transactions (db c)"
    and "users (db c2) = users (db c)"
    and "assetTypes (db c2) = assetTypes (db c)"
    and "set (wallets (db c)) \<subseteq> set (wallets (db c2))"
    and "distinct (map w_id (wallets (db c))) \<longrightarrow> distinct (map w_id (wallets (db c2)))"
    and "uw \<in> set (wallets (db c2))" and "tw \<in> set (wallets (db c2))"
    and "w_userId uw = u" and "w_userId tw = u_id su"
proof -
  note a = getOrCreateWallet_Inr [OF 1]
  from 2 obtain su where su: "find u_isSystem (users (db c1)) = Some su"
    and 3: "getOrCreateWallet n2 (u_id su) a (issue User_findFirstOrThrow c1) = (Inr tw, c2)"
    by (rule getTreasuryWallet_Inr)
  note b = getOrCreateWallet_Inr [OF 3, unfolded db_issue]
  have su': "find u_isSystem (users (db c)) = Some su" using su a(6) by simp
  have l1: "wallet_lookup (db c2) u a = Some uw"
    using b(8)
  proof
    assume "wallets (db c2) = wallets (db c1)"
    then show ?thesis using a(1) wallet_lookup_wallets [of "db c2" "db c1" u a] by simp
  next
    assume "wallets (db c2) = wallets (db c1) @ [tw] \<and> w_id tw \<notin> set (map w_id (wallets (db c1)))
             \<and> wallet_lookup (db c1) (u_id su) a = None"
    then show ?thesis using wallet_lookup_append [OF a(1), of "db c2" "[tw]"] by simp
  qed
  have sub1: "set (wallets (db c)) \<subseteq> set (wallets (db c1))" using a(8) by auto
  have sub2: "set (wallets (db c1)) \<subseteq> set (wallets (db c2))" using b(8) by auto
  have sub: "set (wallets (db c)) \<subseteq> set (wallets (db c2))" using sub1 sub2 by blast
  have dist: "distinct (map w_id (wallets (db c))) \<longrightarrow> distinct (map w_id (wallets (db c2)))"
  proof
    assume d: "distinct (map w_id (wallets (db c)))"
    have "distinct (map w_id (wallets (db c1)))" using d a(8) by auto
    then show "distinct (map w_id (wallets (db c2)))" using b(8) by auto
  qed
  have uw: "uw \<in> set (wallets (db c2))" using a(9) sub2 by blast
  have le: "ledgerEntries (db c2) = ledgerEntries (db c)" using a(4) b(4) by simp
  have tr: "transactions (db c2) = transactions (db c)" using a(5) b(5) by simp
  have us: "users (db c2) = users (db c)" using a(6) b(6) by simp
  have at: "assetTypes (db c2) = assetTypes (db c)" using a(7) b(7) by simp
  show ?thesis
    by (rule that [OF su' l1 b(1) le tr us at sub dist uw b(9) a(2) b(2)])
qed

lemma prisma_transaction_Inr: "prisma_transaction body c = (Inr r, c') \<Longrightarrow> body c = (Inr r, c')"
  by (auto simp: prisma_transaction_def split: prod.splits sum.splits)


lemma exec_unfold:
  "exec x c =
     (if amount (request_of x) \<le> 0 then (Inl (Error AmountMustBePositive), c)
      else case find (\<lambda>e. le_idempotencyKey e = Some (idempotencyKey (request_of x))) (ledgerEntries (db c)) of
             Some existing \<Rightarrow> (Inr (duplicate existing), issue (LedgerEntry_findUnique (idempotencyKey (request_of x))) c)
           | None \<Rightarrow> transaction_of x (issue (LedgerEntry_findUnique (idempotencyKey (request_of x))) c))"
  by (cases x)
     (simp_all add: topupWallet_def issueBonus_def spendCredits_def ledgerEntry_findUnique_def
        split: option.splits)



lemma find_None_keys:
  "find (\<lambda>e. le_idempotencyKey e = Some k) es = None \<longleftrightarrow> Some k \<notin> set (map le_idempotencyKey es)"
  by (induction es) auto

lemma posted_intro:
  assumes pos: "0 < amount req"
    and 1: "getOrCreateWallet n1 (userId req) (assetTypeId req) c0 = (Inr uw, c1)"
    and 2: "getTreasuryWallet n2 (assetTypeId req) c1 = (Inr tw, c2)"
    and key: "Some (idempotencyKey req) \<notin> set (map le_idempotencyKey (ledgerEntries (db c2)))"
    and d: "db c' = (db c2)\<lparr>transactions := transactions (db c2) @ [t],
                             ledgerEntries := ledgerEntries (db c2) @ [e]\<rparr>"
    and e: "le_transactionType e = k" "le_idempotencyKey e = Some (idempotencyKey req)"
           "le_amount e = quantize (amount req)" "le_transactionId e = transactionId r"
           "le_assetTypeId e = assetTypeId req"
           "le_debitWalletId e = (if k = SPEND then w_id uw else w_id tw)"
           "le_creditWalletId e = (if k = SPEND then w_id tw else w_id uw)"
    and t: "t_id t = transactionId r" "t_type t = k" "t_status t = COMPLETED"
    and g: "k = SPEND \<longrightarrow> amount req \<le> decimal4 (balance_query (ledgerEntries (db c2)) (w_id uw))"
    and r: "res_amount r = Some (amount req)" "\<not> idempotent r"
  shows "\<exists>su. posted k req (db c0) (db c') r uw tw su e t"
proof -
  obtain su where w:
      "find u_isSystem (users (db c0)) = Some su"
      "wallet_lookup (db c2) (userId req) (assetTypeId req) = Some uw"
      "wallet_lookup (db c2) (u_id su) (assetTypeId req) = Some tw"
      "ledgerEntries (db c2) = ledgerEntries (db c0)"
      "transactions (db c2) = transactions (db c0)"
      "users (db c2) = users (db c0)"
      "assetTypes (db c2) = assetTypes (db c0)"
      "set (wallets (db c0)) \<subseteq> set (wallets (db c2))"
      "distinct (map w_id (wallets (db c0))) \<longrightarrow> distinct (map w_id (wallets (db c2)))"
      "uw \<in> set (wallets (db c2))" "tw \<in> set (wallets (db c2))"
      "w_userId uw = userId req" "w_userId tw = u_id su"
    by (rule resolve_wallets [OF 1 2])
  have ws: "wallets (db c') = wallets (db c2)" using d by simp
  have l: "wallet_lookup (db c') (userId req) (assetTypeId req) = Some uw"
          "wallet_lookup (db c') (u_id su) (assetTypeId req) = Some tw"
    using w(2,3) ws by (simp_all add: wallet_lookup_def)
  have k0: "find (\<lambda>e. le_idempotencyKey e = Some (idempotencyKey req)) (ledgerEntries (db c0)) = None"
    using key w(4) by (simp add: find_None_keys)
  have "posted k req (db c0) (db c') r uw tw su e t"
    unfolding posted_def
    using pos k0 w(1) l w(10,11,12,13) w(8,9) w(4,5,6,7) ws d e t g r
    by simp
  then show ?thesis ..
qed

lemma transaction_of_posted:
  assumes x: "transaction_of x c0 = (Inr r, c')" and pos: "0 < amount (request_of x)"
  shows "\<exists>uw tw su e t. posted (kind_of x) (request_of x) (db c0) (db c') r uw tw su e t"
proof -
  show ?thesis
  proof (cases x)
    case (Topup g req)
    with x have "topupWallet_tx g req c0 = (Inr r, c')" by (auto dest: prisma_transaction_Inr)
    then obtain uw tw c1 c2 where h:
      "getOrCreateWallet (uuid_userWallet g) (userId req) (assetTypeId req) c0 = (Inr uw, c1)"
      "getTreasuryWallet (uuid_treasuryWallet g) (assetTypeId req) c1 = (Inr tw, c2)"
      "Some (idempotencyKey req) \<notin> set (map le_idempotencyKey (ledgerEntries (db c2)))"
      "db c' = (db c2)
         \<lparr>transactions := transactions (db c2) @
            [\<lparr>t_id = uuid_transaction g, t_type = TOPUP, t_status = COMPLETED,
              t_description = (case description req of Some d \<Rightarrow> Custom d | None \<Rightarrow> TopUpOfCredits (amount req))\<rparr>],
          ledgerEntries := ledgerEntries (db c2) @
            [\<lparr>le_id = uuid_ledgerEntry g,
              le_transactionId = uuid_transaction g,
              le_assetTypeId = assetTypeId req,
              le_debitWalletId = w_id tw,
              le_creditWalletId = w_id uw,
              le_amount = quantize (amount req),
              le_transactionType = TOPUP,
              le_description = (case description req of Some d \<Rightarrow> Custom d | None \<Rightarrow> TopUpPurchase),
              le_idempotencyKey = Some (idempotencyKey req)\<rparr>]\<rparr>"
      "r = \<lparr>transactionId = uuid_transaction g, res_amount = Some (amount req),
                remainingBalance = None, idempotent = False, message = None\<rparr>"
      by (rule topupWallet_tx_Inr)
    from pos Topup have p: "0 < amount req" by simp
    have "\<exists>su. posted TOPUP req (db c0) (db c') r uw tw su
        \<lparr>le_id = uuid_ledgerEntry g,
              le_transactionId = uuid_transaction g,
              le_assetTypeId = assetTypeId req,
              le_debitWalletId = w_id tw,
              le_creditWalletId = w_id uw,
              le_amount = quantize (amount req),
              le_transactionType = TOPUP,
              le_description = (case description req of Some d \<Rightarrow> Custom d | None \<Rightarrow> TopUpPurchase),
              le_idempotencyKey = Some (idempotencyKey req)\<rparr>
        \<lparr>t_id = uuid_transaction g, t_type = TOPUP, t_status = COMPLETED,
              t_description = (case description req of Some d \<Rightarrow> Custom d | None \<Rightarrow> TopUpOfCredits (amount req))\<rparr>"
      by (rule posted_intro [OF p h(1) h(2) h(3) h(4)]) (simp_all add: h(5))
    then show ?thesis using Topup by simp blast
  next
    case (Bonus g req)
    with x have "issueBonus_tx g req c0 = (Inr r, c')" by (auto dest: prisma_transaction_Inr)
    then obtain uw tw c1 c2 where h:
      "getOrCreateWallet (uuid_userWallet g) (userId req) (assetTypeId req) c0 = (Inr uw, c1)"
      "getTreasuryWallet (uuid_treasuryWallet g) (assetTypeId req) c1 = (Inr tw, c2)"
      "Some (idempotencyKey req) \<notin> set (map le_idempotencyKey (ledgerEntries (db c2)))"
      "db c' = (db c2)
         \<lparr>transactions := transactions (db c2) @
            [\<lparr>t_id = uuid_transaction g, t_type = BONUS, t_status = COMPLETED,
              t_description = (case description req of Some d \<Rightarrow> Custom d | None \<Rightarrow> BonusOfCredits (amount req))\<rparr>],
          ledgerEntries := ledgerEntries (db c2) @
            [\<lparr>le_id = uuid_ledgerEntry g,
              le_transactionId = uuid_transaction g,
              le_assetTypeId = assetTypeId req,
              le_debitWalletId = w_id tw,
              le_creditWalletId = w_id uw,
              le_amount = quantize (amount req),
              le_transactionType = BONUS,
              le_description = (case description req of Some d \<Rightarrow> Custom d | None \<Rightarrow> BonusIncentiveCredit),
              le_idempotencyKey = Some (idempotencyKey req)\<rparr>]\<rparr>"
      "r = \<lparr>transactionId = uuid_transaction g, res_amount = Some (amount req),
                remainingBalance = None, idempotent = False, message = None\<rparr>"
      by (rule issueBonus_tx_Inr)
    from pos Bonus have p: "0 < amount req" by simp
    have "\<exists>su. posted BONUS req (db c0) (db c') r uw tw su
        \<lparr>le_id = uuid_ledgerEntry g,
              le_transactionId = uuid_transaction g,
              le_assetTypeId = assetTypeId req,
              le_debitWalletId = w_id tw,
              le_creditWalletId = w_id uw,
              le_amount = quantize (amount req),
              le_transactionType = BONUS,
              le_description = (case description req of Some d \<Rightarrow> Custom d | None \<Rightarrow> BonusIncentiveCredit),
              le_idempotencyKey = Some (idempotencyKey req)\<rparr>
        \<lparr>t_id = uuid_transaction g, t_type = BONUS, t_status = COMPLETED,
              t_description = (case description req of Some d \<Rightarrow> Custom d | None \<Rightarrow> BonusOfCredits (amount req))\<rparr>"
      by (rule posted_intro [OF p h(1) h(2) h(3) h(4)]) (simp_all add: h(5))
    then show ?thesis using Bonus by simp blast
  next
    case (Spend g req)
    with x have "spendCredits_tx g req c0 = (Inr r, c')" by (auto dest: prisma_transaction_Inr)
    then obtain uw tw c1 c2 where h:
      "getOrCreateWallet (uuid_userWallet g) (userId req) (assetTypeId req) c0 = (Inr uw, c1)"
      "getTreasuryWallet (uuid_treasuryWallet g) (assetTypeId req) c1 = (Inr tw, c2)"
      "Some (idempotencyKey req) \<notin> set (map le_idempotencyKey (ledgerEntries (db c2)))"
      "db c' = (db c2)
         \<lparr>transactions := transactions (db c2) @
            [\<lparr>t_id = uuid_transaction g, t_type = SPEND, t_status = COMPLETED,
              t_description = (case description req of Some d \<Rightarrow> Custom d | None \<Rightarrow> SpendOfCredits (amount req))\<rparr>],
          ledgerEntries := ledgerEntries (db c2) @
            [\<lparr>le_id = uuid_ledgerEntry g,
              le_transactionId = uuid_transaction g,
              le_assetTypeId = assetTypeId req,
              le_debitWalletId = w_id uw,
              le_creditWalletId = w_id tw,
              le_amount = quantize (amount req),
              le_transactionType = SPEND,
              le_description = (case description req of Some d \<Rightarrow> Custom d | None \<Rightarrow> InAppPurchase),
              le_idempotencyKey = Some (idempotencyKey req)\<rparr>]\<rparr>"
      "r = \<lparr>transactionId = uuid_transaction g, res_amount = Some (amount req),
            remainingBalance =
              Some (toFixed4 (Decimal_minus (decimal4 (balance_query (ledgerEntries (db c2)) (w_id uw)))
                               (amount req))),
            idempotent = False, message = None\<rparr>"
      "amount req \<le> decimal4 (balance_query (ledgerEntries (db c2)) (w_id uw))"
      by (rule spendCredits_tx_Inr)
    from pos Spend have p: "0 < amount req" by simp
    have "\<exists>su. posted SPEND req (db c0) (db c') r uw tw su
        \<lparr>le_id = uuid_ledgerEntry g,
              le_transactionId = uuid_transaction g,
              le_assetTypeId = assetTypeId req,
              le_debitWalletId = w_id uw,
              le_creditWalletId = w_id tw,
              le_amount = quantize (amount req),
              le_transactionType = SPEND,
              le_description = (case description req of Some d \<Rightarrow> Custom d | None \<Rightarrow> InAppPurchase),
              le_idempotencyKey = Some (idempotencyKey req)\<rparr>
        \<lparr>t_id = uuid_transaction g, t_type = SPEND, t_status = COMPLETED,
              t_description = (case description req of Some d \<Rightarrow> Custom d | None \<Rightarrow> SpendOfCredits (amount req))\<rparr>"
      by (rule posted_intro [OF p h(1) h(2) h(3) h(4)]) (simp_all add: h(5) h(6))
    then show ?thesis using Spend by simp blast
  qed
qed

lemma exec_fresh:
  assumes x: "exec x c = (Inr r, c')" and f: "\<not> idempotent r"
  obtains uw tw su e t where "posted (kind_of x) (request_of x) (db c) (db c') r uw tw su e t"
proof -
  let ?c0 = "issue (LedgerEntry_findUnique (idempotencyKey (request_of x))) c"
  have pos: "0 < amount (request_of x)"
    using x by (auto simp: exec_unfold split: if_splits)
  have "find (\<lambda>e. le_idempotencyKey e = Some (idempotencyKey (request_of x))) (ledgerEntries (db c)) = None"
    using x f pos by (auto simp: exec_unfold duplicate_def split: option.splits)
  with x pos have "transaction_of x ?c0 = (Inr r, c')"
    by (simp add: exec_unfold)
  then have "\<exists>uw tw su e t. posted (kind_of x) (request_of x) (db ?c0) (db c') r uw tw su e t"
    using pos by (rule transaction_of_posted)
  then show ?thesis using that by (auto simp: db_issue)
qed


subsection \<open>Evaluation and arithmetic of amounts\<close>

lemmas eval_defs = topupWallet_def topupWallet_tx_def issueBonus_def issueBonus_tx_def
  spendCredits_def spendCredits_tx_def prisma_transaction_def ledgerEntry_findUnique_def
  getOrCreateWallet_def getTreasuryWallet_def wallet_lookup_def transaction_create_def
  ledgerEntry_create_def transaction_update_def computeBalanceInTx_def balance_query_def
  db_issue db_lockWalletsInOrder Let_def Decimal_minus_50_30

lemma quantize_30: "quantize 30 = 300000"
  by (simp add: quantize_def round_half_up_def floor_unique)



lemma quantize_pos: "1 / 20000 \<le> x \<Longrightarrow> 0 < quantize x"
proof -
  assume a: "1 / 20000 \<le> x"
  then have "1 \<le> x * 10000 + 1 / 2" by simp
  then have "1 \<le> \<lfloor>x * 10000 + 1 / 2\<rfloor>" by (simp add: le_floor_iff)
  moreover have "\<not> x * 10000 < 0" using a by simp
  ultimately show ?thesis by (simp add: quantize_def round_half_up_def)
qed

lemma distinct_ids_differ:
  "distinct (map w_id ws) \<Longrightarrow> a \<in> set ws \<Longrightarrow> b \<in> set ws \<Longrightarrow> a \<noteq> b \<Longrightarrow> w_id a \<noteq> w_id b"
  by (auto simp: distinct_map inj_on_def)


subsection \<open>Replaying a key\<close>

lemma exec_hit:
  assumes "0 < amount (request_of x)"
    and "find (\<lambda>e. le_idempotencyKey e = Some (idempotencyKey (request_of x))) (ledgerEntries (db c)) = Some e"
  shows "exec x c = (Inr (duplicate e), issue (LedgerEntry_findUnique (idempotencyKey (request_of x))) c)"
  using assms by (simp add: exec_unfold)

lemma run_Cons:
  "run (x # xs) c = (fst (exec x c) # fst (run xs (snd (exec x c))), snd (run xs (snd (exec x c))))"
  by (simp split: prod.splits)

lemma run_replays:
  assumes "0 < amount req"
    and "find (\<lambda>e. le_idempotencyKey e = Some (idempotencyKey req)) (ledgerEntries (db c)) = Some e"
    and "\<forall>y \<in> set ys. request_of y = req"
  shows "fst (run ys c) = replicate (length ys) (Inr (duplicate e)) \<and> db (snd (run ys c)) = db c"
  using assms
proof (induction ys arbitrary: c)
  case Nil
  then show ?case by simp
next
  case (Cons y ys)
  let ?c1 = "issue (LedgerEntry_findUnique (idempotencyKey (request_of y))) c"
  have y: "request_of y = req" using Cons.prems(3) by simp
  have hit: "exec y c = (Inr (duplicate e), ?c1)"
    using Cons.prems(1,2) y by (intro exec_hit) simp_all
  have "find (\<lambda>e. le_idempotencyKey e = Some (idempotencyKey req)) (ledgerEntries (db ?c1)) = Some e"
    using Cons.prems(2) by (simp add: db_issue)
  then have "fst (run ys ?c1) = replicate (length ys) (Inr (duplicate e)) \<and> db (snd (run ys ?c1)) = db ?c1"
    using Cons.prems(1,3) by (intro Cons.IH) simp_all
  then show ?case
    by (simp add: run_Cons hit db_issue del: run.simps(2))
qed

lemma find_None_filter: "find P xs = None \<Longrightarrow> filter P xs = []"
  by (induction xs) (auto split: if_splits)

lemma toFixed4_20: "toFixed4 20 = ''20.0000''"
proof -
  have "quantize 20 = 200000"
    by (simp add: quantize_def round_half_up_def floor_unique)
  then have "toFixed4 20 = digits 20 @ ''.'' @ pad4 (digits 0)"
    by (simp add: toFixed4_def Let_def)
  then show ?thesis
    by (simp add: digits.simps pad4_def replicate_3)
qed

lemma demo_spend_30:
  "fst (exec (Spend demo_uuids demo_request) demo)
     = Inr \<lparr>transactionId = ''t1'', res_amount = Some 30, remainingBalance = Some ''20.0000'',
            idempotent = False, message = None\<rparr>"
  by (simp add: eval_defs demo_def demo_uuids_def demo_request_def quantize_30 decimal4_def toFixed4_20)


subsection \<open>The two steps of a mutation\<close>

lemma exec_two_phases:
  "exec x c = (case fast_path (request_of x) c of (checked, c1) \<Rightarrow> finish x checked c1)"
  by (cases x)
     (simp_all add: fast_path_def finish_def topupWallet_def issueBonus_def spendCredits_def
        ledgerEntry_findUnique_def split: option.splits)













subsection \<open>Balances along a sequence of calls\<close>














subsection \<open>Validation\<close>

text \<open>
  C8. A TOPUP, BONUS or SPEND request whose amount is at most zero is rejected before the
  store is touched: each service function throws \<^verbatim>\<open>Amount must be positive\<close> and each
  request handler answers 400 with a validation error, and in both cases the client is
  returned as it was given: no query has been issued and no table has changed.
\<close>

theorem nonpositive_amount_rejected:
  "amount req \<le> 0 \<Longrightarrow>
     topupWallet g req c = (Inl (Error AmountMustBePositive), c)
   \<and> issueBonus g req c = (Inl (Error AmountMustBePositive), c)
   \<and> spendCredits g req c = (Inl (Error AmountMustBePositive), c)
   \<and> topup is_uuid g req c = (Failure 400 ValidationError, c)
   \<and> bonus is_uuid g req c = (Failure 400 ValidationError, c)
   \<and> spend is_uuid g req c = (Failure 400 ValidationError, c)"
  by (simp add: topupWallet_def issueBonus_def spendCredits_def topup_def bonus_def spend_def
        TopupSchema_parse_def)

theorem nonpositive_amount_rejected_witness:
  "amount (demo_request\<lparr>amount := - 5\<rparr>) \<le> 0
   \<and> spendCredits demo_uuids (demo_request\<lparr>amount := - 5\<rparr>) demo
       = (Inl (Error AmountMustBePositive), demo)
   \<and> topup (\<lambda>s. True) demo_uuids (demo_request\<lparr>amount := - 5\<rparr>) demo
       = (Failure 400 ValidationError, demo)"
  using nonpositive_amount_rejected
          [of "demo_request\<lparr>amount := - 5\<rparr>" demo_uuids demo "\<lambda>s. True"]
  by simp

subsection \<open>Replay\<close>

text \<open>
  C10. The replay check looks at the idempotency key only. Whatever the user, the asset
  type, the amount (a positive one, as every request that passes validation has) and the
  description of a request are, if the ledger holds an entry under the request's key then
  each of the three operations returns that entry's transaction identifier with the replay
  flag set, after the single look-up query, and no table has changed.
\<close>

theorem replay_matches_key_alone:
  "0 < amount req \<Longrightarrow>
   find (\<lambda>e. le_idempotencyKey e = Some (idempotencyKey req)) (ledgerEntries (db c)) = Some e \<Longrightarrow>
   x \<in> {Topup g req, Bonus g req, Spend g req} \<Longrightarrow>
     exec x c = (Inr (duplicate e), issue (LedgerEntry_findUnique (idempotencyKey req)) c)
   \<and> transactionId (duplicate e) = le_transactionId e
   \<and> idempotent (duplicate e)
   \<and> db (snd (exec x c)) = db c"
  by (auto simp: topupWallet_def issueBonus_def spendCredits_def ledgerEntry_findUnique_def
        duplicate_def db_issue)

theorem replay_matches_key_alone_witness:
  "fst (exec (Spend demo_uuids
               \<lparr>userId = ''B'', assetTypeId = ''D'', amount = 7, idempotencyKey = ''seed-alice-gc'',
                description = None\<rparr>) demo)
     = Inr \<lparr>transactionId = ''t0'', res_amount = None, remainingBalance = None, idempotent = True,
            message = Some ''Duplicate request - returning original result''\<rparr>"
proof -
  let ?req = "\<lparr>userId = ''B'', assetTypeId = ''D'', amount = 7, idempotencyKey = ''seed-alice-gc'',
               description = None\<rparr>"
  let ?e = "\<lparr>le_id = ''e0'', le_transactionId = ''t0'', le_assetTypeId = ''G'',
             le_debitWalletId = ''w1'', le_creditWalletId = ''w2'', le_amount = 500000,
             le_transactionType = TOPUP, le_description = Custom ''Alice initial Gold Coins'',
             le_idempotencyKey = Some ''seed-alice-gc''\<rparr>"
  have pos: "0 < amount ?req" by simp
  have hit: "find (\<lambda>e. le_idempotencyKey e = Some (idempotencyKey ?req)) (ledgerEntries (db demo))
             = Some ?e"
    by (simp add: demo_def)
  have mem: "Spend demo_uuids ?req \<in> {Topup demo_uuids ?req, Bonus demo_uuids ?req, Spend demo_uuids ?req}"
    by simp
  show ?thesis
    using replay_matches_key_alone [OF pos hit mem] by (simp add: duplicate_def)
qed

subsection \<open>Lock order\<close>




subsection \<open>Balance query\<close>

text \<open>
  C9. For a user and asset without a wallet (the asset itself existing), the balance
  operation returns the asset's name and symbol with the balance string 0.0000; for a pair
  with a wallet it returns the sum of the amounts of the entries crediting the wallet minus
  the sum of the amounts of the entries debiting it, rendered by \<open>toFixed4\<close>; whatever it
  returns has four digits after the point; and in every case the tables are left as they
  were, so no wallet is created.
\<close>

theorem getBalance_reads_only:
  "(wallet_lookup (db c) uid aid = None \<and> find (\<lambda>a. at_id a = aid) (assetTypes (db c)) = Some a \<longrightarrow>
      fst (getBalance uid aid c)
        = Inr \<lparr>br_userId = uid, br_assetTypeId = aid, br_assetName = at_name a,
               br_assetSymbol = at_symbol a, br_balance = ''0.0000''\<rparr>)
   \<and> (wallet_lookup (db c) uid aid = Some w
        \<and> find (\<lambda>a. at_id a = w_assetTypeId w) (assetTypes (db c)) = Some a \<longrightarrow>
      fst (getBalance uid aid c)
        = Inr \<lparr>br_userId = uid, br_assetTypeId = aid, br_assetName = at_name a,
               br_assetSymbol = at_symbol a,
               br_balance = toFixed4 (decimal4
                 (sum_list (map le_amount (filter (\<lambda>e. le_creditWalletId e = w_id w) (ledgerEntries (db c))))
                  - sum_list (map le_amount (filter (\<lambda>e. le_debitWalletId e = w_id w) (ledgerEntries (db c))))))\<rparr>)
   \<and> (\<forall>b. fst (getBalance uid aid c) = Inr b \<longrightarrow>
          (\<exists>whole frac. br_balance b = whole @ ''.'' @ frac \<and> length frac = 4))
   \<and> db (snd (getBalance uid aid c)) = db c"
proof (intro conjI impI allI)
  show "db (snd (getBalance uid aid c)) = db c" by (rule db_getBalance)
next
  assume "wallet_lookup (db c) uid aid = None \<and> find (\<lambda>a. at_id a = aid) (assetTypes (db c)) = Some a"
  then show "fst (getBalance uid aid c)
        = Inr \<lparr>br_userId = uid, br_assetTypeId = aid, br_assetName = at_name a,
               br_assetSymbol = at_symbol a, br_balance = ''0.0000''\<rparr>"
    by (simp add: getBalance_def Let_def)
next
  assume "wallet_lookup (db c) uid aid = Some w
        \<and> find (\<lambda>a. at_id a = w_assetTypeId w) (assetTypes (db c)) = Some a"
  then show "fst (getBalance uid aid c)
        = Inr \<lparr>br_userId = uid, br_assetTypeId = aid, br_assetName = at_name a,
               br_assetSymbol = at_symbol a,
               br_balance = toFixed4 (decimal4
                 (sum_list (map le_amount (filter (\<lambda>e. le_creditWalletId e = w_id w) (ledgerEntries (db c))))
                  - sum_list (map le_amount (filter (\<lambda>e. le_debitWalletId e = w_id w) (ledgerEntries (db c))))))\<rparr>"
    by (simp add: getBalance_def Let_def computeBalance_def balance_query_eq db_issue)
next
  fix b
  assume b: "fst (getBalance uid aid c) = Inr b"
  have zero: "''0.0000'' = ''0'' @ ''.'' @ ''0000''" by simp
  show "\<exists>whole frac. br_balance b = whole @ ''.'' @ frac \<and> length frac = 4"
  proof (cases "wallet_lookup (db c) uid aid")
    case None
    with b have "br_balance b = ''0'' @ ''.'' @ ''0000''"
      by (auto simp: getBalance_def Let_def split: option.splits)
    moreover have "length ''0000'' = 4" by simp
    ultimately show ?thesis by blast
  next
    case (Some wal)
    with b obtain x where "br_balance b = toFixed4 x"
      by (auto simp: getBalance_def Let_def computeBalance_def split: option.splits)
    then show ?thesis using toFixed4_fraction [of x] by simp
  qed
qed

theorem getBalance_reads_only_witness:
  "fst (getBalance ''B'' ''G'' demo)
     = Inr \<lparr>br_userId = ''B'', br_assetTypeId = ''G'', br_assetName = ''Gold Coins'',
            br_assetSymbol = ''GC'', br_balance = ''0.0000''\<rparr>
   \<and> fst (getBalance ''A'' ''G'' demo)
     = Inr \<lparr>br_userId = ''A'', br_assetTypeId = ''G'', br_assetName = ''Gold Coins'',
            br_assetSymbol = ''GC'', br_balance = ''50.0000''\<rparr>
   \<and> db (snd (getBalance ''B'' ''G'' demo)) = db demo"
proof -
  let ?a = "\<lparr>at_id = ''G'', at_name = ''Gold Coins'', at_symbol = ''GC''\<rparr>"
  let ?w = "\<lparr>w_id = ''w2'', w_userId = ''A'', w_assetTypeId = ''G''\<rparr>"
  have none: "wallet_lookup (db demo) ''B'' ''G'' = None"
    by (simp add: demo_def wallet_lookup_def)
  have some: "wallet_lookup (db demo) ''A'' ''G'' = Some ?w"
    by (simp add: demo_def wallet_lookup_def)
  have asset: "find (\<lambda>a. at_id a = ''G'') (assetTypes (db demo)) = Some ?a"
    by (simp add: demo_def)
  have entries: "ledgerEntries (db demo) = [\<lparr>le_id = ''e0'', le_transactionId = ''t0'', le_assetTypeId = ''G'',
                le_debitWalletId = ''w1'', le_creditWalletId = ''w2'', le_amount = 500000,
                le_transactionType = TOPUP, le_description = Custom ''Alice initial Gold Coins'',
                le_idempotencyKey = Some ''seed-alice-gc''\<rparr>]"
    by (simp add: demo_def)
  have b: "fst (getBalance ''B'' ''G'' demo)
     = Inr \<lparr>br_userId = ''B'', br_assetTypeId = ''G'', br_assetName = ''Gold Coins'',
            br_assetSymbol = ''GC'', br_balance = ''0.0000''\<rparr>"
    using getBalance_reads_only [of demo "''B''" "''G''" ?a ?w] none asset by simp
  have a: "fst (getBalance ''A'' ''G'' demo)
     = Inr \<lparr>br_userId = ''A'', br_assetTypeId = ''G'', br_assetName = ''Gold Coins'',
            br_assetSymbol = ''GC'', br_balance = ''50.0000''\<rparr>"
    using getBalance_reads_only [of demo "''A''" "''G''" ?a ?w] some asset
    by (simp add: entries toFixed4_50)
  show ?thesis
    using a b getBalance_reads_only [of demo "''B''" "''G''" ?a ?w] by simp
qed

subsection \<open>Insufficient funds\<close>

text \<open>
  C1. A SPEND request that reaches the balance check (a positive amount, no entry under its
  key, both wallets resolved) and whose amount exceeds the balance of the user's wallet, as
  the balance query computes it after the locks, fails with the error
  \<^verbatim>\<open>Insufficient balance\<close> carrying the rendered balance and the requested amount. The
  tables are then exactly those before the call, so no ledger entry, no transaction row
  and no wallet of the attempt is kept, and the balance of the wallet is what it was.
\<close>

theorem spend_insufficient_funds:
  assumes pos: "0 < amount req"
    and new: "find (\<lambda>e. le_idempotencyKey e = Some (idempotencyKey req)) (ledgerEntries (db c)) = None"
    and uw: "getOrCreateWallet (uuid_userWallet g) (userId req) (assetTypeId req)
               (issue (LedgerEntry_findUnique (idempotencyKey req)) c) = (Inr userWallet, c1)"
    and tw: "getTreasuryWallet (uuid_treasuryWallet g) (assetTypeId req) c1 = (Inr treasuryWallet, c2)"
    and low: "decimal4 (balance_query (ledgerEntries (db c)) (w_id userWallet)) < amount req"
  shows "fst (spendCredits g req c)
           = Inl (Error (InsufficientBalance
                   (toFixed4 (decimal4 (balance_query (ledgerEntries (db c)) (w_id userWallet))))
                   (amount req)))
       \<and> db (snd (spendCredits g req c)) = db c
       \<and> balance_query (ledgerEntries (db (snd (spendCredits g req c)))) (w_id userWallet)
           = balance_query (ledgerEntries (db c)) (w_id userWallet)"
proof -
  have same: "ledgerEntries (db c2) = ledgerEntries (db c)"
    by (rule resolve_wallets [OF uw tw]) (simp add: db_issue)
  have tx: "spendCredits_tx g req (issue (LedgerEntry_findUnique (idempotencyKey req)) c)
              = (Inl (Error (InsufficientBalance
                   (toFixed4 (decimal4 (balance_query (ledgerEntries (db c)) (w_id userWallet))))
                   (amount req))),
                 issue (LedgerEntry_balance (w_id userWallet))
                   (lockWalletsInOrder [w_id userWallet, w_id treasuryWallet] c2))"
    using low by (simp add: spendCredits_tx_def uw tw computeBalanceInTx_def db_lockWalletsInOrder same)
  have "spendCredits g req c
          = (Inl (Error (InsufficientBalance
                   (toFixed4 (decimal4 (balance_query (ledgerEntries (db c)) (w_id userWallet))))
                   (amount req))),
             (issue (LedgerEntry_balance (w_id userWallet))
                   (lockWalletsInOrder [w_id userWallet, w_id treasuryWallet] c2))\<lparr>db := db c\<rparr>)"
    using pos new by (simp add: spendCredits_def ledgerEntry_findUnique_def prisma_transaction_def tx db_issue)
  then show ?thesis by simp
qed

theorem spend_insufficient_funds_witness:
  "fst (spendCredits demo_uuids (demo_request\<lparr>amount := 9999\<rparr>) demo)
     = Inl (Error (InsufficientBalance ''50.0000'' 9999))
   \<and> db (snd (spendCredits demo_uuids (demo_request\<lparr>amount := 9999\<rparr>) demo)) = db demo
   \<and> balance_query (ledgerEntries (db (snd (spendCredits demo_uuids (demo_request\<lparr>amount := 9999\<rparr>) demo)))) ''w2''
       = 500000"
proof -
  let ?req = "demo_request\<lparr>amount := 9999\<rparr>"
  let ?c0 = "issue (LedgerEntry_findUnique (idempotencyKey ?req)) demo"
  let ?uw = "\<lparr>w_id = ''w2'', w_userId = ''A'', w_assetTypeId = ''G''\<rparr>"
  let ?tw = "\<lparr>w_id = ''w1'', w_userId = ''T'', w_assetTypeId = ''G''\<rparr>"
  let ?c1 = "issue (Wallet_upsert ''A'' ''G'') ?c0"
  let ?c2 = "issue (Wallet_upsert ''T'' ''G'') (issue User_findFirstOrThrow ?c1)"
  have pos: "0 < amount ?req" by (simp add: demo_request_def)
  have new: "find (\<lambda>e. le_idempotencyKey e = Some (idempotencyKey ?req)) (ledgerEntries (db demo)) = None"
    by (simp add: demo_def demo_request_def)
  have uw: "getOrCreateWallet (uuid_userWallet demo_uuids) (userId ?req) (assetTypeId ?req) ?c0 = (Inr ?uw, ?c1)"
    by (simp add: getOrCreateWallet_def wallet_lookup_def db_issue demo_def demo_request_def)
  have tw: "getTreasuryWallet (uuid_treasuryWallet demo_uuids) (assetTypeId ?req) ?c1 = (Inr ?tw, ?c2)"
    by (simp add: getTreasuryWallet_def getOrCreateWallet_def wallet_lookup_def db_issue demo_def demo_request_def)
  have bal: "balance_query (ledgerEntries (db demo)) ''w2'' = 500000"
    by (simp add: balance_query_def demo_def)
  have low: "decimal4 (balance_query (ledgerEntries (db demo)) (w_id ?uw)) < amount ?req"
    by (simp add: bal decimal4_def demo_request_def)
  show ?thesis
    using spend_insufficient_funds [OF pos new uw tw low]
    by (simp add: bal toFixed4_50 demo_request_def)
qed

subsection \<open>The entry a committed transfer writes\<close>

text \<open>
  C5. An operation that succeeds without being a replay appends exactly one ledger entry
  and one transaction row. The entry's kind and the row's kind are the kind of the
  operation, the entry belongs to the row, and the direction follows the kind: TOPUP and
  BONUS debit the wallet of the system user and credit the requesting user's wallet, SPEND
  debits the requesting user's wallet and credits the wallet of the system user.
\<close>

theorem entry_direction_by_kind:
  "exec x c = (Inr r, c') \<Longrightarrow> \<not> idempotent r \<Longrightarrow>
   \<exists>uw tw su e t.
       find u_isSystem (users (db c)) = Some su
     \<and> wallet_lookup (db c') (userId (request_of x)) (assetTypeId (request_of x)) = Some uw
     \<and> wallet_lookup (db c') (u_id su) (assetTypeId (request_of x)) = Some tw
     \<and> ledgerEntries (db c') = ledgerEntries (db c) @ [e]
     \<and> transactions (db c') = transactions (db c) @ [t]
     \<and> le_transactionId e = t_id t \<and> transactionId r = t_id t
     \<and> t_type t = kind_of x \<and> le_transactionType e = kind_of x
     \<and> (kind_of x = TOPUP \<or> kind_of x = BONUS \<longrightarrow>
           le_debitWalletId e = w_id tw \<and> le_creditWalletId e = w_id uw)
     \<and> (kind_of x = SPEND \<longrightarrow>
           le_debitWalletId e = w_id uw \<and> le_creditWalletId e = w_id tw)"
proof -
  assume "exec x c = (Inr r, c')" and "\<not> idempotent r"
  then obtain uw tw su e t where "posted (kind_of x) (request_of x) (db c) (db c') r uw tw su e t"
    by (rule exec_fresh)
  then have "find u_isSystem (users (db c)) = Some su
     \<and> wallet_lookup (db c') (userId (request_of x)) (assetTypeId (request_of x)) = Some uw
     \<and> wallet_lookup (db c') (u_id su) (assetTypeId (request_of x)) = Some tw
     \<and> ledgerEntries (db c') = ledgerEntries (db c) @ [e]
     \<and> transactions (db c') = transactions (db c) @ [t]
     \<and> le_transactionId e = t_id t \<and> transactionId r = t_id t
     \<and> t_type t = kind_of x \<and> le_transactionType e = kind_of x
     \<and> (kind_of x = TOPUP \<or> kind_of x = BONUS \<longrightarrow>
           le_debitWalletId e = w_id tw \<and> le_creditWalletId e = w_id uw)
     \<and> (kind_of x = SPEND \<longrightarrow>
           le_debitWalletId e = w_id uw \<and> le_creditWalletId e = w_id tw)"
    by (auto simp: posted_def)
  then show ?thesis by blast
qed

theorem entry_direction_by_kind_witness:
  "(\<exists>uw tw su e t.
       find u_isSystem (users (db demo)) = Some su
     \<and> wallet_lookup (db (snd (exec (Spend demo_uuids demo_request) demo))) ''A'' ''G'' = Some uw
     \<and> wallet_lookup (db (snd (exec (Spend demo_uuids demo_request) demo))) (u_id su) ''G'' = Some tw
     \<and> ledgerEntries (db (snd (exec (Spend demo_uuids demo_request) demo))) = ledgerEntries (db demo) @ [e]
     \<and> le_transactionType e = SPEND
     \<and> le_debitWalletId e = w_id uw \<and> le_creditWalletId e = w_id tw)
   \<and> (\<exists>uw tw su e t.
       find u_isSystem (users (db demo)) = Some su
     \<and> wallet_lookup (db (snd (exec (Topup demo_uuids demo_request) demo))) ''A'' ''G'' = Some uw
     \<and> wallet_lookup (db (snd (exec (Topup demo_uuids demo_request) demo))) (u_id su) ''G'' = Some tw
     \<and> ledgerEntries (db (snd (exec (Topup demo_uuids demo_request) demo))) = ledgerEntries (db demo) @ [e]
     \<and> le_transactionType e = TOPUP
     \<and> le_debitWalletId e = w_id tw \<and> le_creditWalletId e = w_id uw)"
proof -
  let ?r = "\<lparr>transactionId = ''t1'', res_amount = Some 30, remainingBalance = Some ''20.0000'',
             idempotent = False, message = None\<rparr>"
  let ?r' = "\<lparr>transactionId = ''t1'', res_amount = Some 30, remainingBalance = None,
             idempotent = False, message = None\<rparr>"
  have run: "exec (Spend demo_uuids demo_request) demo
               = (Inr ?r, snd (exec (Spend demo_uuids demo_request) demo))"
    using demo_spend_30 by (metis prod.collapse)
  have "fst (exec (Topup demo_uuids demo_request) demo) = Inr ?r'"
    by (simp add: eval_defs demo_def demo_uuids_def demo_request_def quantize_30)
  then have run': "exec (Topup demo_uuids demo_request) demo
                    = (Inr ?r', snd (exec (Topup demo_uuids demo_request) demo))"
    by (metis prod.collapse)
  have req: "userId demo_request = ''A''" "assetTypeId demo_request = ''G''"
    by (simp_all add: demo_request_def)
  have s: "\<exists>uw tw su e t.
       find u_isSystem (users (db demo)) = Some su
     \<and> wallet_lookup (db (snd (exec (Spend demo_uuids demo_request) demo))) ''A'' ''G'' = Some uw
     \<and> wallet_lookup (db (snd (exec (Spend demo_uuids demo_request) demo))) (u_id su) ''G'' = Some tw
     \<and> ledgerEntries (db (snd (exec (Spend demo_uuids demo_request) demo))) = ledgerEntries (db demo) @ [e]
     \<and> le_transactionType e = SPEND
     \<and> le_debitWalletId e = w_id uw \<and> le_creditWalletId e = w_id tw"
    using entry_direction_by_kind [OF run] by (simp add: req del: exec.simps) blast
  have t: "\<exists>uw tw su e t.
       find u_isSystem (users (db demo)) = Some su
     \<and> wallet_lookup (db (snd (exec (Topup demo_uuids demo_request) demo))) ''A'' ''G'' = Some uw
     \<and> wallet_lookup (db (snd (exec (Topup demo_uuids demo_request) demo))) (u_id su) ''G'' = Some tw
     \<and> ledgerEntries (db (snd (exec (Topup demo_uuids demo_request) demo))) = ledgerEntries (db demo) @ [e]
     \<and> le_transactionType e = TOPUP
     \<and> le_debitWalletId e = w_id tw \<and> le_creditWalletId e = w_id uw"
    using entry_direction_by_kind [OF run'] by (simp add: req del: exec.simps) blast
  show ?thesis using s t by (rule conjI)
qed

text \<open>
  C7, as the code has it. The entry that a committed transfer writes for a requested
  amount of at least 0.00005 has a positive amount (the stored amount is the requested one
  rounded to four decimals); and its debit wallet differs from its credit wallet when the
  requesting user is not the system user (wallet identifiers being unique, as the primary
  key has it).
\<close>

theorem written_entry_amount_and_wallets:
  "exec x c = (Inr r, c') \<Longrightarrow> \<not> idempotent r \<Longrightarrow>
   \<exists>e su.
       ledgerEntries (db c') = ledgerEntries (db c) @ [e]
     \<and> find u_isSystem (users (db c)) = Some su
     \<and> le_amount e = quantize (amount (request_of x))
     \<and> (1 / 20000 \<le> amount (request_of x) \<longrightarrow> 0 < le_amount e)
     \<and> (userId (request_of x) \<noteq> u_id su \<and> distinct (map w_id (wallets (db c))) \<longrightarrow>
           le_debitWalletId e \<noteq> le_creditWalletId e)"
proof -
  assume "exec x c = (Inr r, c')" and "\<not> idempotent r"
  then obtain uw tw su e t where p: "posted (kind_of x) (request_of x) (db c) (db c') r uw tw su e t"
    by (rule exec_fresh)
  have 1: "ledgerEntries (db c') = ledgerEntries (db c) @ [e]"
    and 2: "find u_isSystem (users (db c)) = Some su"
    and 3: "le_amount e = quantize (amount (request_of x))"
    using p by (simp_all add: posted_def)
  have 4: "0 < le_amount e" if "1 / 20000 \<le> amount (request_of x)"
    using that 3 by (simp add: quantize_pos)
  have 5: "le_debitWalletId e \<noteq> le_creditWalletId e"
    if "userId (request_of x) \<noteq> u_id su" and "distinct (map w_id (wallets (db c)))"
  proof -
    have d: "distinct (map w_id (wallets (db c')))" using p that(2) by (simp add: posted_def)
    have m: "uw \<in> set (wallets (db c'))" "tw \<in> set (wallets (db c'))"
      using p by (simp_all add: posted_def)
    have "w_userId uw \<noteq> w_userId tw" using p that(1) by (simp add: posted_def)
    then have "uw \<noteq> tw" by auto
    then have "w_id uw \<noteq> w_id tw" using d m by (rule distinct_ids_differ [rotated 3])
    moreover have "le_debitWalletId e = (if kind_of x = SPEND then w_id uw else w_id tw)"
      and "le_creditWalletId e = (if kind_of x = SPEND then w_id tw else w_id uw)"
      using p by (simp_all add: posted_def)
    ultimately show ?thesis by auto
  qed
  show ?thesis using 1 2 3 4 5 by blast
qed

theorem written_entry_amount_and_wallets_witness:
  "\<exists>e su.
       ledgerEntries (db (snd (exec (Topup demo_uuids demo_request) demo))) = ledgerEntries (db demo) @ [e]
     \<and> find u_isSystem (users (db demo)) = Some su
     \<and> 0 < le_amount e \<and> le_debitWalletId e \<noteq> le_creditWalletId e"
proof -
  let ?r = "\<lparr>transactionId = ''t1'', res_amount = Some 30, remainingBalance = None,
             idempotent = False, message = None\<rparr>"
  have "fst (exec (Topup demo_uuids demo_request) demo) = Inr ?r"
    by (simp add: eval_defs demo_def demo_uuids_def demo_request_def quantize_30)
  then have run: "exec (Topup demo_uuids demo_request) demo
                    = (Inr ?r, snd (exec (Topup demo_uuids demo_request) demo))"
    by (metis prod.collapse)
  have fresh: "\<not> idempotent ?r" by simp
  have big: "1 / 20000 \<le> amount (request_of (Topup demo_uuids demo_request))"
    by (simp add: demo_request_def)
  have sys: "find u_isSystem (users (db demo)) =
               Some \<lparr>u_id = ''T'', u_username = ''treasury'', u_email = ''treasury@system.internal'',
                     u_isSystem = True\<rparr>"
    by (simp add: demo_def)
  have other: "userId (request_of (Topup demo_uuids demo_request)) \<noteq> ''T''"
    by (simp add: demo_request_def)
  have dist: "distinct (map w_id (wallets (db demo)))"
    by (simp add: demo_def)
  show ?thesis
    using written_entry_amount_and_wallets [OF run fresh] big sys other dist by auto
qed


text \<open>
  The claim as the specification states it fails in both parts: a top-up requested by the
  system user itself writes an entry from the treasury wallet to the treasury wallet, and
  a top-up of 0.00001 writes an entry whose amount is zero.
\<close>

theorem entry_positive_and_two_wallets_counterexample:
  "ledgerEntries (db (snd (topupWallet demo_uuids (demo_request\<lparr>userId := ''T''\<rparr>) demo)))
     = ledgerEntries (db demo) @
       [\<lparr>le_id = ''e1'', le_transactionId = ''t1'', le_assetTypeId = ''G'',
         le_debitWalletId = ''w1'', le_creditWalletId = ''w1'', le_amount = 300000,
         le_transactionType = TOPUP, le_description = TopUpPurchase,
         le_idempotencyKey = Some ''k1''\<rparr>]
   \<and> ledgerEntries (db (snd (topupWallet demo_uuids (demo_request\<lparr>amount := 1 / 100000\<rparr>) demo)))
     = ledgerEntries (db demo) @
       [\<lparr>le_id = ''e1'', le_transactionId = ''t1'', le_assetTypeId = ''G'',
         le_debitWalletId = ''w1'', le_creditWalletId = ''w2'', le_amount = 0,
         le_transactionType = TOPUP, le_description = TopUpPurchase,
         le_idempotencyKey = Some ''k1''\<rparr>]"
proof -
  have q: "quantize (1 / 100000) = 0"
    by (simp add: quantize_def round_half_up_def floor_unique)
  show ?thesis
    by (simp add: eval_defs demo_def demo_uuids_def demo_request_def quantize_30 q)
qed


subsection \<open>Submitting a request again\<close>

text \<open>
  When a request has been accepted as new, submitting the same request again any number of
  times (with whatever identifiers the store would generate) leaves the tables as the first
  submission left them, with exactly one ledger entry under the request's key; every repeat
  returns the object that the replay branch builds from the entry found.
\<close>

lemma resubmission_replays:
  assumes first: "exec x c = (Inr r, c1)" and fresh: "\<not> idempotent r"
    and same: "\<forall>y \<in> set ys. request_of y = request_of x"
  shows "fst (run (x # ys) c)
           = Inr r # replicate (length ys)
               (Inr \<lparr>transactionId = transactionId r, res_amount = None, remainingBalance = None,
                     idempotent = True,
                     message = Some ''Duplicate request - returning original result''\<rparr>)
       \<and> db (snd (run (x # ys) c)) = db c1
       \<and> length (filter (\<lambda>e. le_idempotencyKey e = Some (idempotencyKey (request_of x)))
                   (ledgerEntries (db (snd (run (x # ys) c))))) = 1"
proof -
  let ?key = "\<lambda>e. le_idempotencyKey e = Some (idempotencyKey (request_of x))"
  from first fresh obtain uw tw su e t
    where p: "posted (kind_of x) (request_of x) (db c) (db c1) r uw tw su e t"
    by (rule exec_fresh)
  have pos: "0 < amount (request_of x)" using p by (simp add: posted_def)
  have none: "find ?key (ledgerEntries (db c)) = None" using p by (simp add: posted_def)
  have app: "ledgerEntries (db c1) = ledgerEntries (db c) @ [e]" using p by (simp add: posted_def)
  have key: "?key e" using p by (simp add: posted_def)
  have tid: "le_transactionId e = transactionId r" using p by (simp add: posted_def)
  have hit: "find ?key (ledgerEntries (db c1)) = Some e"
    using find_append_None [OF none, of e] key app by simp
  have rep: "fst (run ys c1) = replicate (length ys) (Inr (duplicate e)) \<and> db (snd (run ys c1)) = db c1"
    using pos hit same by (rule run_replays)
  have one: "length (filter ?key (ledgerEntries (db c1))) = 1"
    using find_None_filter [OF none] key app by simp
  show ?thesis
    using rep one by (simp add: run_Cons first duplicate_def tid del: run.simps(2))
qed

lemma resubmission_replays_on_demo:
  "fst (run [Spend demo_uuids demo_request, Spend demo_uuids2 demo_request, Spend demo_uuids demo_request] demo)
     = [Inr \<lparr>transactionId = ''t1'', res_amount = Some 30, remainingBalance = Some ''20.0000'',
              idempotent = False, message = None\<rparr>,
        Inr \<lparr>transactionId = ''t1'', res_amount = None, remainingBalance = None,
              idempotent = True, message = Some ''Duplicate request - returning original result''\<rparr>,
        Inr \<lparr>transactionId = ''t1'', res_amount = None, remainingBalance = None,
              idempotent = True, message = Some ''Duplicate request - returning original result''\<rparr>]
   \<and> length (filter (\<lambda>e. le_idempotencyKey e = Some ''k1'')
        (ledgerEntries (db (snd (run [Spend demo_uuids demo_request, Spend demo_uuids2 demo_request,
                                     Spend demo_uuids demo_request] demo))))) = 1"
proof -
  let ?r = "\<lparr>transactionId = ''t1'', res_amount = Some 30, remainingBalance = Some ''20.0000'',
             idempotent = False, message = None\<rparr>"
  let ?x = "Spend demo_uuids demo_request"
  let ?ys = "[Spend demo_uuids2 demo_request, Spend demo_uuids demo_request]"
  have first: "exec ?x demo = (Inr ?r, snd (exec ?x demo))"
    using demo_spend_30 by (metis prod.collapse)
  have fresh: "\<not> idempotent ?r" by simp
  have same: "\<forall>y \<in> set ?ys. request_of y = request_of ?x" by simp
  have key: "idempotencyKey demo_request = ''k1''" by (simp add: demo_request_def)
  note t = resubmission_replays [OF first fresh same]
  have a: "fst (run (?x # ?ys) demo)
     = [Inr ?r,
        Inr \<lparr>transactionId = ''t1'', res_amount = None, remainingBalance = None,
              idempotent = True, message = Some ''Duplicate request - returning original result''\<rparr>,
        Inr \<lparr>transactionId = ''t1'', res_amount = None, remainingBalance = None,
              idempotent = True, message = Some ''Duplicate request - returning original result''\<rparr>]"
    using t [THEN conjunct1] by (simp del: run.simps(2) exec.simps)
  have b: "length (filter (\<lambda>e. le_idempotencyKey e = Some ''k1'')
        (ledgerEntries (db (snd (run (?x # ?ys) demo))))) = 1"
    using t [THEN conjunct2, THEN conjunct2] by (simp add: key del: run.simps(2) exec.simps)
  show ?thesis
    using a b by blast
qed


text \<open>
  C3. A repeat is to return the payload of the original with the replay flag set: the same
  transaction identifier, the same amount and, for a SPEND, the same resulting balance. The
  comment of the replay branch (\<^verbatim>\<open>return the existing result\<close>), its message
  (\<^verbatim>\<open>returning original result\<close>) and the README (the replay returns
  \<^verbatim>\<open>...result, idempotent: true\<close>) say the same. The branch does not do it. On the
  small store, the player's SPEND of 30 under key k1 returns transaction t1, the amount 30
  and the balance 20.0000; submitted again, it returns transaction t1 and the flag, with
  neither the amount nor the balance, which is not the first result with the flag set.
\<close>

theorem replay_omits_amount_and_balance:
  "fst (run [Spend demo_uuids demo_request, Spend demo_uuids2 demo_request] demo)
     = [Inr \<lparr>transactionId = ''t1'', res_amount = Some 30, remainingBalance = Some ''20.0000'',
              idempotent = False, message = None\<rparr>,
        Inr \<lparr>transactionId = ''t1'', res_amount = None, remainingBalance = None,
              idempotent = True, message = Some ''Duplicate request - returning original result''\<rparr>]
   \<and> fst (run [Spend demo_uuids demo_request, Spend demo_uuids2 demo_request] demo) ! 1
     \<noteq> map_sum id (\<lambda>r. r\<lparr>idempotent := True\<rparr>)
         (fst (run [Spend demo_uuids demo_request, Spend demo_uuids2 demo_request] demo) ! 0)"
proof -
  have "fst (exec (Spend demo_uuids2 demo_request) (snd (exec (Spend demo_uuids demo_request) demo)))
             = Inr \<lparr>transactionId = ''t1'', res_amount = None, remainingBalance = None,
              idempotent = True, message = Some ''Duplicate request - returning original result''\<rparr>"
    by (simp add: eval_defs demo_def demo_uuids_def demo_uuids2_def demo_request_def quantize_30
          decimal4_def duplicate_def)
  then have "fst (run [Spend demo_uuids demo_request, Spend demo_uuids2 demo_request] demo)
     = [Inr \<lparr>transactionId = ''t1'', res_amount = Some 30, remainingBalance = Some ''20.0000'',
              idempotent = False, message = None\<rparr>,
        Inr \<lparr>transactionId = ''t1'', res_amount = None, remainingBalance = None,
              idempotent = True, message = Some ''Duplicate request - returning original result''\<rparr>]"
    using demo_spend_30 by (simp add: run_Cons del: run.simps(2) exec.simps)
  then show ?thesis by simp
qed


subsection \<open>Two requests racing on one idempotency key\<close>







subsection \<open>Non-negative balances\<close>





end
